theory Spec2Isabelle
  imports Main "HOL-Library.Word"
begin

unbundle bit_operations_syntax

section \<open>Machine types and constants\<close>

text \<open>
  The module is Linux kernel code (3.x, with \<^verbatim>\<open>PAGE_CACHE_SHIFT\<close>) and is modelled for an
  LP64 target: \<^verbatim>\<open>long\<close>, \<^verbatim>\<open>unsigned long\<close>, \<^verbatim>\<open>loff_t\<close>, \<^verbatim>\<open>pgoff_t\<close> and \<^verbatim>\<open>u64\<close> are 64-bit
  words, \<^verbatim>\<open>unsigned\<close>, \<^verbatim>\<open>int\<close> and \<^verbatim>\<open>dev_t\<close> are 32-bit words, \<^verbatim>\<open>umode_t\<close> is a 16-bit word.
  A word carries no sign: \<open><\<close> and \<open>\<le>\<close> on words are the unsigned comparisons of C, a signed
  comparison reads both sides with \<open>sint\<close>.
\<close>

type_synonym byte = "8 word"
type_synonym u16 = "16 word"
type_synonym u32 = "32 word"
type_synonym u64 = "64 word"

definition PAGE_CACHE_SHIFT :: nat where
  "PAGE_CACHE_SHIFT = 12"

definition PAGE_CACHE_SIZE :: nat where
  "PAGE_CACHE_SIZE = 4096"

definition NAME_MAX :: u64 where
  "NAME_MAX = 255"

text \<open>
  Error results. \<open>ENOMEM\<close> and \<open>ENOSPC\<close> are the negative return codes of the source.
  \<open>Fault\<close> stands for the kernel faults the C code can run into: a division by zero, a
  \<^verbatim>\<open>BUG_ON\<close> that fires, or a null or dangling pointer that is dereferenced.
\<close>

datatype error = ENOMEM | ENOSPC | Fault

section \<open>The capacity ledger and capacity reporting\<close>

text \<open>
  The super block with the fields the module reads. \<^verbatim>\<open>MYFS_INFO(sb)\<close> is declared in
  \<^verbatim>\<open>myfs.h\<close>; its two members used here, \<^verbatim>\<open>fs_max_size\<close> and the \<^verbatim>\<open>atomic_long_t used_blocks\<close>,
  are fields of the same record. \<open>fs_max_size\<close> is held as the 64-bit value that enters the
  division by the \<^verbatim>\<open>unsigned long s_blocksize\<close>.
\<close>

record super_block =
  s_magic :: u64
  s_blocksize :: u64
  s_remove_count :: u64
  fs_max_size :: u64
  used_blocks :: u64

text \<open>
  \<^verbatim>\<open>struct kstatfs\<close> of \<^verbatim>\<open>linux/statfs.h\<close>: \<^verbatim>\<open>f_type\<close>, \<^verbatim>\<open>f_bsize\<close> and \<^verbatim>\<open>f_namelen\<close> are \<^verbatim>\<open>long\<close>,
  \<^verbatim>\<open>f_blocks\<close>, \<^verbatim>\<open>f_bfree\<close> and \<^verbatim>\<open>f_bavail\<close> are \<^verbatim>\<open>u64\<close> (the source prints them with
  \<^verbatim>\<open>%llu\<close>).
\<close>

record kstatfs =
  f_type :: u64
  f_bsize :: u64
  f_namelen :: u64
  f_blocks :: u64
  f_bfree :: u64
  f_bavail :: u64

text \<open>
  \<^verbatim>\<open>myfs_statfs\<close>. The subtraction is done in \<^verbatim>\<open>u64\<close> (the \<^verbatim>\<open>long\<close> counter is converted),
  and the test \<^verbatim>\<open>buf->f_bavail < 0\<close> compares an unsigned value with zero.
\<close>

definition myfs_statfs :: "super_block \<Rightarrow> error + kstatfs" where
  "myfs_statfs b =
     (if s_blocksize b = 0 then Inl Fault
      else
        let blocks = fs_max_size b div s_blocksize b;
            avail = blocks - used_blocks b;
            avail' = (if avail < 0 then 0 else avail)
        in Inr \<lparr>f_type = s_magic b, f_bsize = s_blocksize b, f_namelen = NAME_MAX,
                f_blocks = blocks, f_bfree = avail', f_bavail = avail'\<rparr>)"

section \<open>Pages\<close>

text \<open>
  A page of the page cache: its \<open>PAGE_CACHE_SIZE\<close> bytes and the two flag bits the module
  reads and writes. The page lock and the reference count (\<^verbatim>\<open>unlock_page\<close>,
  \<^verbatim>\<open>page_cache_release\<close>) are not modelled: calls are sequential here, and no property below
  depends on them. \<^verbatim>\<open>printk\<close> output is not modelled either.
\<close>

record page =
  data :: "byte list"
  PageUptodate :: bool
  PageDirty :: bool

definition SetPageUptodate :: "page \<Rightarrow> page" where
  "SetPageUptodate pg = pg\<lparr>PageUptodate := True\<rparr>"

text \<open>\<^verbatim>\<open>TestSetPageDirty\<close> sets the bit and returns its previous value.\<close>

definition TestSetPageDirty :: "page \<Rightarrow> bool \<times> page" where
  "TestSetPageDirty pg = (PageDirty pg, pg\<lparr>PageDirty := True\<rparr>)"

text \<open>\<^verbatim>\<open>myset_page_dirty_no_writeback\<close>: the \<^verbatim>\<open>int\<close> result is read as a truth value.\<close>

definition myset_page_dirty_no_writeback :: "page \<Rightarrow> bool \<times> page" where
  "myset_page_dirty_no_writeback pg =
     (if \<not> PageDirty pg then
        (case TestSetPageDirty pg of (was, pg') \<Rightarrow> (\<not> was, pg'))
      else (False, pg))"

text \<open>
  The kernel's \<^verbatim>\<open>set_page_dirty\<close> calls the \<^verbatim>\<open>set_page_dirty\<close> member of the mapping's
  operations. \<^verbatim>\<open>myfs_write_end\<close> is reached through \<^verbatim>\<open>myfs_aops\<close> only, whose member is
  \<^verbatim>\<open>myset_page_dirty_no_writeback\<close>.
\<close>

definition set_page_dirty :: "page \<Rightarrow> bool \<times> page" where
  "set_page_dirty pg = myset_page_dirty_no_writeback pg"

text \<open>\<^verbatim>\<open>memset(kaddr + start, 0, n)\<close> on the bytes of a page.\<close>

definition memset0 :: "nat \<Rightarrow> nat \<Rightarrow> byte list \<Rightarrow> byte list" where
  "memset0 start n d = map (\<lambda>i. if start \<le> i \<and> i < start + n then 0 else d ! i) [0..<length d]"

text \<open>
  \<^verbatim>\<open>zero_user_segments\<close> and \<^verbatim>\<open>zero_user\<close> of \<^verbatim>\<open>linux/highmem.h\<close>, on \<^verbatim>\<open>unsigned\<close> arguments.
  \<open>None\<close> is the \<^verbatim>\<open>BUG_ON(end1 > PAGE_SIZE || end2 > PAGE_SIZE)\<close>.
\<close>

definition zero_user_segments :: "page \<Rightarrow> u32 \<Rightarrow> u32 \<Rightarrow> u32 \<Rightarrow> u32 \<Rightarrow> page option" where
  "zero_user_segments pg start1 end1 start2 end2 =
     (if unat end1 > PAGE_CACHE_SIZE \<or> unat end2 > PAGE_CACHE_SIZE then None
      else
        let d1 = (if end1 > start1 then memset0 (unat start1) (unat (end1 - start1)) (data pg)
                  else data pg);
            d2 = (if end2 > start2 then memset0 (unat start2) (unat (end2 - start2)) d1
                  else d1)
        in Some (pg\<lparr>data := d2\<rparr>))"

definition zero_user :: "page \<Rightarrow> u32 \<Rightarrow> u32 \<Rightarrow> page option" where
  "zero_user pg start sz = zero_user_segments pg start (start + sz) 0 0"

text \<open>The offset of a file position inside its page: \<^verbatim>\<open>pos & (PAGE_CACHE_SIZE - 1)\<close>.\<close>

definition page_offset :: "u64 \<Rightarrow> u32" where
  "page_offset pos = ucast (pos AND of_nat (PAGE_CACHE_SIZE - 1))"

text \<open>\<^verbatim>\<open>pos >> PAGE_CACHE_SHIFT\<close> on the signed \<^verbatim>\<open>loff_t\<close>, stored in a \<^verbatim>\<open>pgoff_t\<close>.\<close>

definition page_index :: "u64 \<Rightarrow> u64" where
  "page_index pos = signed_drop_bit PAGE_CACHE_SHIFT pos"

section \<open>Inodes and the state of the filesystem\<close>

datatype address_space_operations = empty_aops | myfs_aops

datatype inode_operations =
  empty_iops | myfs_file_inode_operations | myfs_dir_inode_operations
  | page_symlink_inode_operations

datatype file_operations =
  empty_fops | myfs_file_operations | simple_dir_operations
  | def_chr_fops | def_blk_fops | pipefifo_fops | bad_sock_fops

datatype gfp = GFP_HIGHUSER_MOVABLE | GFP_HIGHUSER

text \<open>
  An inode with its mapping. \<open>i_pages\<close> is the page tree of \<^verbatim>\<open>inode->i_mapping\<close>, an
  association list from page index to page with one entry per index; \<^verbatim>\<open>nrpages\<close> is the
  number of its entries, as the page cache maintains it.
\<close>

record inode =
  i_ino :: u64
  i_mode :: u16
  i_uid :: u32
  i_gid :: u32
  i_nlink :: u32
  i_size :: u64
  i_rdev :: u32
  i_atime :: nat
  i_mtime :: nat
  i_ctime :: nat
  i_op :: inode_operations
  i_fop :: file_operations
  a_ops :: address_space_operations
  gfp_mask :: gfp
  unevictable :: bool
  i_pages :: "(u64 \<times> page) list"

definition nrpages :: "inode \<Rightarrow> u64" where
  "nrpages ino = of_nat (length (i_pages ino))"

text \<open>
  The two hooks of \<^verbatim>\<open>myfs_hook_ops\<close> (declared in \<^verbatim>\<open>myfs.h\<close>) are function pointers set
  elsewhere. Each call is recorded with its argument, an inode pointer or null.
\<close>

datatype hook_call = create_inode "nat option" | delete_inode "nat option"

text \<open>
  The state: the super block with the ledger, the inode objects (a pointer to an inode is
  its position in \<open>inodes\<close>; a freed object is \<open>None\<close>), the counter behind
  \<^verbatim>\<open>get_next_ino\<close>, the hook calls made so far and the number of \<^verbatim>\<open>WARN_ON\<close> diagnostics
  raised so far.
\<close>

record myfs_state =
  sb :: super_block
  inodes :: "inode option list"
  last_ino :: u32
  hook_calls :: "hook_call list"
  warnings :: nat

text \<open>What the calling task and the clock supply.\<close>

record kcontext =
  current_fsuid :: u32
  current_fsgid :: u32
  CURRENT_TIME :: nat

record dentry =
  d_inode :: "nat option"
  d_count :: int

definition inode_at :: "myfs_state \<Rightarrow> nat \<Rightarrow> inode option" where
  "inode_at s p = (if p < length (inodes s) then inodes s ! p else None)"

definition set_inode :: "nat \<Rightarrow> inode \<Rightarrow> myfs_state \<Rightarrow> myfs_state" where
  "set_inode p ino s = s\<lparr>inodes := (inodes s)[p := Some ino]\<rparr>"

definition WARN_ON :: "bool \<Rightarrow> myfs_state \<Rightarrow> myfs_state" where
  "WARN_ON c s = (if c then s\<lparr>warnings := Suc (warnings s)\<rparr> else s)"

section \<open>The write path\<close>

text \<open>
  \<^verbatim>\<open>grab_cache_page_write_begin\<close>: the page at \<open>index\<close> if the mapping has one, otherwise a
  new page added to the mapping. \<open>alloc\<close> is what the page allocator does when asked: \<open>None\<close>
  when it fails, otherwise the prior contents of the page frame it hands out. A new page
  is neither up to date nor dirty.
\<close>

definition grab_cache_page_write_begin ::
  "inode \<Rightarrow> u64 \<Rightarrow> (nat \<Rightarrow> byte) option \<Rightarrow> (page \<times> inode) option" where
  "grab_cache_page_write_begin ino index alloc =
     (case map_of (i_pages ino) index of
        Some pg \<Rightarrow> Some (pg, ino)
      | None \<Rightarrow>
          (case alloc of
             None \<Rightarrow> None
           | Some g \<Rightarrow>
               let pg = \<lparr>data = map g [0..<PAGE_CACHE_SIZE], PageUptodate = False,
                         PageDirty = False\<rparr>
               in Some (pg, ino\<lparr>i_pages := i_pages ino @ [(index, pg)]\<rparr>)))"

text \<open>Writing a page back into the mapping at an index that is present.\<close>

definition put_page :: "u64 \<Rightarrow> page \<Rightarrow> inode \<Rightarrow> inode" where
  "put_page index pg ino =
     ino\<lparr>i_pages := map (\<lambda>(k, p). if k = index then (k, pg) else (k, p)) (i_pages ino)\<rparr>"

text \<open>
  \<^verbatim>\<open>myfs_write_begin\<close>. \<open>host\<close> is \<^verbatim>\<open>mapping->host\<close>. The result \<open>Inr (host, index)\<close> is return
  value 0 with \<^verbatim>\<open>*pagep\<close> set: a page pointer is the pair of its inode and its index. The
  comparison of \<^verbatim>\<open>usedblks\<close> with \<^verbatim>\<open>maxblks\<close> is one of two \<^verbatim>\<open>long\<close>s.
\<close>

definition myfs_write_begin ::
  "myfs_state \<Rightarrow> nat \<Rightarrow> u64 \<Rightarrow> u32 \<Rightarrow> (nat \<Rightarrow> byte) option
   \<Rightarrow> (error + nat \<times> u64) \<times> myfs_state" where
  "myfs_write_begin s host pos len alloc =
     (case inode_at s host of
        None \<Rightarrow> (Inl Fault, s)
      | Some ino \<Rightarrow>
          if s_blocksize (sb s) = 0 then (Inl Fault, s)
          else
            let maxblks = fs_max_size (sb s) div s_blocksize (sb s);
                usedblks = used_blocks (sb s)
            in
              if sint usedblks \<ge> sint maxblks then (Inl ENOMEM, s)
              else
                let index = page_index pos in
                (case grab_cache_page_write_begin ino index alloc of
                   None \<Rightarrow> (Inl ENOMEM, s)
                 | Some (pg, ino') \<Rightarrow>
                     (case (if \<not> PageUptodate pg \<and> unat len \<noteq> PAGE_CACHE_SIZE then
                              let from = page_offset pos
                              in zero_user_segments pg 0 from (from + len)
                                   (of_nat PAGE_CACHE_SIZE)
                            else Some pg) of
                        None \<Rightarrow> (Inl Fault, s)
                      | Some pg' \<Rightarrow>
                          (Inr (host, index), set_inode host (put_page index pg' ino') s))))"

text \<open>The page a page pointer refers to, with its inode (\<^verbatim>\<open>page->mapping->host\<close>).\<close>

definition page_at :: "myfs_state \<Rightarrow> nat \<times> u64 \<Rightarrow> (inode \<times> page) option" where
  "page_at s pp =
     (case inode_at s (fst pp) of
        None \<Rightarrow> None
      | Some ino \<Rightarrow>
          (case map_of (i_pages ino) (snd pp) of
             None \<Rightarrow> None
           | Some pg \<Rightarrow> Some (ino, pg)))"

definition atomic_long_inc_used :: "super_block \<Rightarrow> super_block" where
  "atomic_long_inc_used b = b\<lparr>used_blocks := used_blocks b + 1\<rparr>"

text \<open>
  \<^verbatim>\<open>myfs_write_end\<close>. \<open>pp\<close> is the \<^verbatim>\<open>page\<close> argument; a pointer to no page is a fault. The
  result \<open>Inr copied\<close> is the \<^verbatim>\<open>int\<close> return value \<^verbatim>\<open>copied\<close>. \<^verbatim>\<open>last_pos > inode->i_size\<close>
  compares two \<^verbatim>\<open>loff_t\<close>.
\<close>

definition myfs_write_end ::
  "myfs_state \<Rightarrow> u64 \<Rightarrow> u32 \<Rightarrow> u32 \<Rightarrow> nat \<times> u64 \<Rightarrow> (error + u32) \<times> myfs_state" where
  "myfs_write_end s pos len copied pp =
     (case page_at s pp of
        None \<Rightarrow> (Inl Fault, s)
      | Some (ino, pg) \<Rightarrow>
          let last_pos = pos + ucast copied in
          (case (if copied < len then
                   let from = page_offset pos
                   in zero_user pg (from + copied) (len - copied)
                 else Some pg) of
             None \<Rightarrow> (Inl Fault, s)
           | Some pg1 \<Rightarrow>
               let pg2 = (if \<not> PageUptodate pg1 then SetPageUptodate pg1 else pg1);
                   ino1 = (if sint last_pos > sint (i_size ino) then ino\<lparr>i_size := last_pos\<rparr>
                           else ino)
               in
                 (case set_page_dirty pg2 of
                    (newly, pg3) \<Rightarrow>
                      let s1 = set_inode (fst pp) (put_page (snd pp) pg3 ino1) s;
                          s2 = (if newly then s1\<lparr>sb := atomic_long_inc_used (sb s1)\<rparr> else s1)
                      in (Inr copied, s2))))"

text \<open>
  The step between the two calls, made by the caller (\<^verbatim>\<open>generic_perform_write\<close>,
  \<^verbatim>\<open>__page_symlink\<close>): the bytes \<open>src\<close> are copied into the page from offset \<open>from\<close> on.
\<close>

definition memcpy_at :: "nat \<Rightarrow> byte list \<Rightarrow> byte list \<Rightarrow> byte list" where
  "memcpy_at from src d =
     map (\<lambda>i. if from \<le> i \<and> i < from + length src then src ! (i - from) else d ! i)
       [0..<length d]"

definition copy_to_page :: "myfs_state \<Rightarrow> nat \<times> u64 \<Rightarrow> nat \<Rightarrow> byte list \<Rightarrow> myfs_state" where
  "copy_to_page s pp from src =
     (case page_at s pp of
        None \<Rightarrow> s
      | Some (ino, pg) \<Rightarrow>
          set_inode (fst pp) (put_page (snd pp) (pg\<lparr>data := memcpy_at from src (data pg)\<rparr>) ino) s)"

text \<open>
  One write to one page as the caller runs it: \<^verbatim>\<open>write_begin\<close>, the copy of the \<open>length src\<close>
  bytes that could be copied (at most \<open>len\<close>), then \<^verbatim>\<open>write_end\<close> with that count.
\<close>

definition myfs_write ::
  "myfs_state \<Rightarrow> nat \<Rightarrow> u64 \<Rightarrow> u32 \<Rightarrow> byte list \<Rightarrow> (nat \<Rightarrow> byte) option
   \<Rightarrow> (error + u32) \<times> myfs_state" where
  "myfs_write s host pos len src alloc =
     (case myfs_write_begin s host pos len alloc of
        (Inl e, s1) \<Rightarrow> (Inl e, s1)
      | (Inr pp, s1) \<Rightarrow>
          myfs_write_end (copy_to_page s1 pp (unat (page_offset pos)) src) pos len
            (of_nat (length src)) pp)"

section \<open>Unlinking\<close>

definition upd_inode :: "nat \<Rightarrow> (inode \<Rightarrow> inode) \<Rightarrow> myfs_state \<Rightarrow> myfs_state" where
  "upd_inode p f s = (case inode_at s p of None \<Rightarrow> s | Some ino \<Rightarrow> set_inode p (f ino) s)"

text \<open>\<^verbatim>\<open>truncate_inode_pages(mapping, 0)\<close> removes every page of the mapping.\<close>

definition truncate_inode_pages :: "inode \<Rightarrow> inode" where
  "truncate_inode_pages ino = ino\<lparr>i_pages := []\<rparr>"

text \<open>
  A dentry is passed in and handed back: \<^verbatim>\<open>d_instantiate\<close> attaches the inode, \<^verbatim>\<open>dget\<close> and
  \<^verbatim>\<open>dput\<close> move the reference count (the caller holds a reference of its own, so \<^verbatim>\<open>dput\<close>
  frees nothing here).
\<close>

definition d_instantiate :: "dentry \<Rightarrow> nat \<Rightarrow> dentry" where
  "d_instantiate d p = d\<lparr>d_inode := Some p\<rparr>"

definition dget :: "dentry \<Rightarrow> dentry" where
  "dget d = d\<lparr>d_count := d_count d + 1\<rparr>"

definition dput :: "dentry \<Rightarrow> dentry" where
  "dput d = d\<lparr>d_count := d_count d - 1\<rparr>"

text \<open>
  The block of \<^verbatim>\<open>myfs_unlink\<close> that runs when the link count has become zero:
  \<^verbatim>\<open>s_remove_count\<close> is incremented, \<^verbatim>\<open>nrpages\<close> is subtracted from \<^verbatim>\<open>used_blocks\<close>, and the
  pages are truncated.
\<close>

definition final_delete :: "nat \<Rightarrow> inode \<Rightarrow> myfs_state \<Rightarrow> myfs_state" where
  "final_delete p ino s =
     set_inode p (truncate_inode_pages ino)
       (s\<lparr>sb := (sb s)\<lparr>s_remove_count := s_remove_count (sb s) + 1,
                        used_blocks := used_blocks (sb s) - nrpages ino\<rparr>\<rparr>)"

text \<open>
  \<^verbatim>\<open>myfs_unlink\<close>. \<open>dir\<close> points to the directory, \<^verbatim>\<open>dentry->d_inode\<close> to the inode. The
  link count is an \<^verbatim>\<open>unsigned int\<close>: decrementing zero wraps around. \<open>Inr 0\<close> is the
  return value 0.
\<close>

definition myfs_unlink ::
  "myfs_state \<Rightarrow> nat \<Rightarrow> dentry \<Rightarrow> kcontext \<Rightarrow> (error + u32) \<times> dentry \<times> myfs_state" where
  "myfs_unlink s dir dentry ctx =
     (case d_inode dentry of
        None \<Rightarrow> (Inl Fault, dentry, s)
      | Some ip \<Rightarrow>
          if inode_at s ip = None \<or> inode_at s dir = None then (Inl Fault, dentry, s)
          else
            let now = CURRENT_TIME ctx;
                s1 = upd_inode dir (\<lambda>d. d\<lparr>i_mtime := now, i_ctime := now\<rparr>) s;
                s2 = upd_inode ip (\<lambda>i. i\<lparr>i_ctime := now\<rparr>) s1;
                s3 = WARN_ON (map_option i_nlink (inode_at s2 ip) = Some 0) s2;
                s4 = upd_inode ip (\<lambda>i. i\<lparr>i_nlink := i_nlink i - 1\<rparr>) s3;
                s5 = (case inode_at s4 ip of
                        None \<Rightarrow> s4
                      | Some ino \<Rightarrow> if i_nlink ino = 0 then final_delete ip ino s4 else s4)
            in (Inr 0, dput dentry, s5))"

section \<open>Inode creation and reclamation\<close>

definition S_IFMT :: u16 where "S_IFMT = 0xF000"
definition S_IFSOCK :: u16 where "S_IFSOCK = 0xC000"
definition S_IFLNK :: u16 where "S_IFLNK = 0xA000"
definition S_IFREG :: u16 where "S_IFREG = 0x8000"
definition S_IFBLK :: u16 where "S_IFBLK = 0x6000"
definition S_IFDIR :: u16 where "S_IFDIR = 0x4000"
definition S_IFCHR :: u16 where "S_IFCHR = 0x2000"
definition S_IFIFO :: u16 where "S_IFIFO = 0x1000"
definition S_ISGID :: u16 where "S_ISGID = 0x400"
definition S_IRWXUGO :: u16 where "S_IRWXUGO = 0x1FF"

text \<open>
  The object \<^verbatim>\<open>new_inode\<close> returns (the kernel's \<^verbatim>\<open>inode_init_always\<close>): one link, no
  pages, the empty operation tables.
\<close>

definition new_inode :: inode where
  "new_inode =
     \<lparr>i_ino = 0, i_mode = 0, i_uid = 0, i_gid = 0, i_nlink = 1, i_size = 0, i_rdev = 0,
      i_atime = 0, i_mtime = 0, i_ctime = 0, i_op = empty_iops, i_fop = empty_fops,
      a_ops = empty_aops, gfp_mask = GFP_HIGHUSER_MOVABLE, unevictable = False,
      i_pages = []\<rparr>"

text \<open>The kernel's \<^verbatim>\<open>inode_init_owner\<close>; \<open>dir\<close> may be null.\<close>

definition inode_init_owner :: "inode \<Rightarrow> inode option \<Rightarrow> u16 \<Rightarrow> kcontext \<Rightarrow> inode" where
  "inode_init_owner ino dir mode ctx =
     (let ino1 = ino\<lparr>i_uid := current_fsuid ctx\<rparr> in
      case dir of
        None \<Rightarrow> ino1\<lparr>i_gid := current_fsgid ctx, i_mode := mode\<rparr>
      | Some d \<Rightarrow>
          if i_mode d AND S_ISGID \<noteq> 0 then
            ino1\<lparr>i_gid := i_gid d,
                 i_mode := (if mode AND S_IFMT = S_IFDIR then mode OR S_ISGID else mode)\<rparr>
          else ino1\<lparr>i_gid := current_fsgid ctx, i_mode := mode\<rparr>)"

text \<open>The kernel's \<^verbatim>\<open>init_special_inode\<close>.\<close>

definition init_special_inode :: "inode \<Rightarrow> u16 \<Rightarrow> u32 \<Rightarrow> inode" where
  "init_special_inode ino mode rdev =
     (let ino1 = ino\<lparr>i_mode := mode\<rparr>; fmt = mode AND S_IFMT in
      if fmt = S_IFCHR then ino1\<lparr>i_fop := def_chr_fops, i_rdev := rdev\<rparr>
      else if fmt = S_IFBLK then ino1\<lparr>i_fop := def_blk_fops, i_rdev := rdev\<rparr>
      else if fmt = S_IFIFO then ino1\<lparr>i_fop := pipefifo_fops\<rparr>
      else if fmt = S_IFSOCK then ino1\<lparr>i_fop := bad_sock_fops\<rparr>
      else ino1)"

text \<open>
  The kernel's \<^verbatim>\<open>inc_nlink\<close>: on a link count of zero it warns (no inode here carries
  \<^verbatim>\<open>I_LINKABLE\<close>) and takes the inode out of \<^verbatim>\<open>s_remove_count\<close>.
\<close>

definition inc_nlink :: "nat \<Rightarrow> myfs_state \<Rightarrow> myfs_state" where
  "inc_nlink p s =
     (case inode_at s p of
        None \<Rightarrow> s
      | Some ino \<Rightarrow>
          let s1 = (if i_nlink ino = 0 then
                      (WARN_ON True s)\<lparr>sb := (sb s)\<lparr>s_remove_count := s_remove_count (sb s) - 1\<rparr>\<rparr>
                    else s)
          in set_inode p (ino\<lparr>i_nlink := i_nlink ino + 1\<rparr>) s1)"

text \<open>
  \<^verbatim>\<open>myfs_get_inode\<close>. \<open>dir\<close> is the directory inode read through the \<^verbatim>\<open>const\<close> pointer, or
  null. \<open>alloc_ok\<close> tells whether \<^verbatim>\<open>new_inode\<close> finds memory. The new object is appended to
  \<open>inodes\<close>; \<^verbatim>\<open>get_next_ino\<close> is a counter. The result is the inode pointer or null.
\<close>

definition myfs_get_inode ::
  "myfs_state \<Rightarrow> inode option \<Rightarrow> u16 \<Rightarrow> u32 \<Rightarrow> bool \<Rightarrow> kcontext \<Rightarrow> nat option \<times> myfs_state" where
  "myfs_get_inode s dir mode dev alloc_ok ctx =
     (case
        (if alloc_ok then
           let p = length (inodes s);
               ino0 = new_inode\<lparr>i_ino := ucast (last_ino s + 1)\<rparr>;
               ino1 = inode_init_owner ino0 dir mode ctx;
               ino2 = ino1\<lparr>a_ops := myfs_aops, gfp_mask := GFP_HIGHUSER, unevictable := True,
                           i_atime := CURRENT_TIME ctx, i_mtime := CURRENT_TIME ctx,
                           i_ctime := CURRENT_TIME ctx\<rparr>;
               s1 = s\<lparr>inodes := inodes s @ [Some ino2], last_ino := last_ino s + 1\<rparr>;
               fmt = mode AND S_IFMT;
               s2 = (if fmt = S_IFREG then
                       set_inode p (ino2\<lparr>i_op := myfs_file_inode_operations,
                                          i_fop := myfs_file_operations\<rparr>) s1
                     else if fmt = S_IFDIR then
                       inc_nlink p
                         (set_inode p (ino2\<lparr>i_op := myfs_dir_inode_operations,
                                             i_fop := simple_dir_operations\<rparr>) s1)
                     else if fmt = S_IFLNK then
                       set_inode p (ino2\<lparr>i_op := page_symlink_inode_operations\<rparr>) s1
                     else set_inode p (init_special_inode ino2 mode dev) s1)
           in (Some p, s2)
         else (None, s)) of
        (inode, s') \<Rightarrow> (inode, s'\<lparr>hook_calls := hook_calls s' @ [create_inode inode]\<rparr>))"

text \<open>\<^verbatim>\<open>myfs_mknod\<close>, \<^verbatim>\<open>myfs_mkdir\<close> and \<^verbatim>\<open>myfs_create\<close>.\<close>

definition myfs_mknod ::
  "myfs_state \<Rightarrow> nat \<Rightarrow> dentry \<Rightarrow> u16 \<Rightarrow> u32 \<Rightarrow> bool \<Rightarrow> kcontext
   \<Rightarrow> (error + u32) \<times> dentry \<times> myfs_state" where
  "myfs_mknod s dir dentry mode dev alloc_ok ctx =
     (case inode_at s dir of
        None \<Rightarrow> (Inl Fault, dentry, s)
      | Some d \<Rightarrow>
          (case myfs_get_inode s (Some d) mode dev alloc_ok ctx of
             (None, s1) \<Rightarrow> (Inl ENOSPC, dentry, s1)
           | (Some p, s1) \<Rightarrow>
               (Inr 0, dget (d_instantiate dentry p),
                upd_inode dir (\<lambda>d. d\<lparr>i_mtime := CURRENT_TIME ctx, i_ctime := CURRENT_TIME ctx\<rparr>)
                  s1)))"

definition myfs_mkdir ::
  "myfs_state \<Rightarrow> nat \<Rightarrow> dentry \<Rightarrow> u16 \<Rightarrow> bool \<Rightarrow> kcontext
   \<Rightarrow> (error + u32) \<times> dentry \<times> myfs_state" where
  "myfs_mkdir s dir dentry mode alloc_ok ctx =
     (case myfs_mknod s dir dentry (mode OR S_IFDIR) 0 alloc_ok ctx of
        (Inr r, dentry', s1) \<Rightarrow>
          (Inr r, dentry', if r = 0 then inc_nlink dir s1 else s1)
      | (Inl e, dentry', s1) \<Rightarrow> (Inl e, dentry', s1))"

definition myfs_create ::
  "myfs_state \<Rightarrow> nat \<Rightarrow> dentry \<Rightarrow> u16 \<Rightarrow> bool \<Rightarrow> kcontext
   \<Rightarrow> (error + u32) \<times> dentry \<times> myfs_state" where
  "myfs_create s dir dentry mode alloc_ok ctx =
     myfs_mknod s dir dentry (mode OR S_IFREG) 0 alloc_ok ctx"

text \<open>
  \<^verbatim>\<open>myfs_delete_inode\<close>, the \<^verbatim>\<open>drop_inode\<close> member of \<^verbatim>\<open>myfs_super_ops\<close>: the reclaim hook
  is called, \<^verbatim>\<open>generic_delete_inode\<close> changes nothing, the result is \<^verbatim>\<open>-ENOSPC\<close>.
\<close>

definition myfs_delete_inode :: "myfs_state \<Rightarrow> nat \<Rightarrow> (error + u32) \<times> myfs_state" where
  "myfs_delete_inode s p =
     (Inl ENOSPC, s\<lparr>hook_calls := hook_calls s @ [delete_inode (Some p)]\<rparr>)"

text \<open>
  The kernel's \<^verbatim>\<open>iput\<close> on the only reference to an inode: \<^verbatim>\<open>drop_inode\<close> is asked, and on
  a result other than 0 the inode is evicted, its object freed.
\<close>

definition iput :: "nat \<Rightarrow> myfs_state \<Rightarrow> myfs_state" where
  "iput p s =
     (case myfs_delete_inode s p of
        (r, s1) \<Rightarrow> if r \<noteq> Inr 0 then s1\<lparr>inodes := (inodes s1)[p := None]\<rparr> else s1)"

text \<open>
  The kernel's \<^verbatim>\<open>page_symlink\<close>: the target is written into page 0 of the inode through
  the \<^verbatim>\<open>write_begin\<close> and \<^verbatim>\<open>write_end\<close> members of its mapping, which \<^verbatim>\<open>myfs_get_inode\<close>
  has set to \<^verbatim>\<open>myfs_aops\<close>. \<open>len\<close> counts the terminating zero. The kernel retries when
  \<^verbatim>\<open>write_end\<close> returns less than \<open>len - 1\<close>; \<^verbatim>\<open>myfs_write_end\<close> returns its argument
  \<open>copied\<close>, here \<open>len - 1\<close>, so there is no retry. \<open>None\<close> is the result 0.
\<close>

definition page_symlink ::
  "myfs_state \<Rightarrow> nat \<Rightarrow> byte list \<Rightarrow> u32 \<Rightarrow> (nat \<Rightarrow> byte) option
   \<Rightarrow> error option \<times> myfs_state" where
  "page_symlink s p symname len alloc =
     (case myfs_write_begin s p 0 (len - 1) alloc of
        (Inl e, s1) \<Rightarrow> (Some e, s1)
      | (Inr pp, s1) \<Rightarrow>
          (case myfs_write_end (copy_to_page s1 pp 0 (take (unat (len - 1)) symname))
                  0 (len - 1) (len - 1) pp of
             (Inl e, s2) \<Rightarrow> (Some e, s2)
           | (Inr n, s2) \<Rightarrow> (None, s2)))"

text \<open>
  \<^verbatim>\<open>myfs_symlink\<close>. \<open>symname\<close> holds the bytes of the target before its terminating zero,
  \<open>alloc_ok\<close> is the outcome of the inode allocation and \<open>alloc\<close> that of the page
  allocation.
\<close>

definition myfs_symlink ::
  "myfs_state \<Rightarrow> nat \<Rightarrow> dentry \<Rightarrow> byte list \<Rightarrow> bool \<Rightarrow> (nat \<Rightarrow> byte) option \<Rightarrow> kcontext
   \<Rightarrow> (error + u32) \<times> dentry \<times> myfs_state" where
  "myfs_symlink s dir dentry symname alloc_ok alloc ctx =
     (case inode_at s dir of
        None \<Rightarrow> (Inl Fault, dentry, s)
      | Some d \<Rightarrow>
          (case myfs_get_inode s (Some d) (S_IFLNK OR S_IRWXUGO) 0 alloc_ok ctx of
             (None, s1) \<Rightarrow> (Inl ENOSPC, dentry, s1)
           | (Some p, s1) \<Rightarrow>
               let l = of_nat (length symname) + 1 in
               (case page_symlink s1 p symname l alloc of
                  (None, s2) \<Rightarrow>
                    (Inr 0, dget (d_instantiate dentry p),
                     upd_inode dir
                       (\<lambda>d. d\<lparr>i_mtime := CURRENT_TIME ctx, i_ctime := CURRENT_TIME ctx\<rparr>) s2)
                | (Some e, s2) \<Rightarrow> (Inl e, dentry, iput p s2))))"

section \<open>Observations and example states\<close>

text \<open>The page trees of all inode objects, in the order of the objects.\<close>

definition pages_of :: "myfs_state \<Rightarrow> (u64 \<times> page) list option list" where
  "pages_of s = map (map_option i_pages) (inodes s)"

text \<open>
  What \<^verbatim>\<open>myfs_write_end\<close> makes of the bytes of the page when the write stays inside the
  page: after a short copy, the bytes from \<open>copied\<close> up to \<open>len\<close> of the write are zero.
\<close>

definition zero_gap :: "u64 \<Rightarrow> u32 \<Rightarrow> u32 \<Rightarrow> byte list \<Rightarrow> byte list" where
  "zero_gap pos len copied d =
     (if copied < len then
        memset0 (unat (page_offset pos) + unat copied) (unat len - unat copied) d
      else d)"

text \<open>The page \<^verbatim>\<open>grab_cache_page_write_begin\<close> adds when the allocator hands out a frame
  with contents \<open>g\<close>.\<close>

definition fresh_page :: "(nat \<Rightarrow> byte) \<Rightarrow> page" where
  "fresh_page g = \<lparr>data = map g [0..<PAGE_CACHE_SIZE], PageUptodate = False, PageDirty = False\<rparr>"

text \<open>
  What \<^verbatim>\<open>myfs_write_begin\<close> makes of the page it gets, for a write that stays inside the
  page: unless the page is up to date or the write covers a whole page, the bytes before
  and after the range of the write are zero.
\<close>

definition begin_page :: "u64 \<Rightarrow> u32 \<Rightarrow> page \<Rightarrow> page" where
  "begin_page pos len pg =
     (if \<not> PageUptodate pg \<and> unat len \<noteq> PAGE_CACHE_SIZE then
        pg\<lparr>data := memset0 (unat (page_offset pos) + unat len)
                      (PAGE_CACHE_SIZE - (unat (page_offset pos) + unat len))
                      (memset0 0 (unat (page_offset pos)) (data pg))\<rparr>
      else pg)"

text \<open>The page after the copy of \<open>src\<close> and \<^verbatim>\<open>myfs_write_end\<close>.\<close>

definition end_page :: "u64 \<Rightarrow> u32 \<Rightarrow> byte list \<Rightarrow> page \<Rightarrow> page" where
  "end_page pos len src pg =
     pg\<lparr>data := zero_gap pos len (of_nat (length src))
                   (memcpy_at (unat (page_offset pos)) src (data pg)),
        PageUptodate := True, PageDirty := True\<rparr>"

text \<open>The page after one whole write.\<close>

definition written_page :: "u64 \<Rightarrow> u32 \<Rightarrow> byte list \<Rightarrow> page \<Rightarrow> page" where
  "written_page pos len src pg = end_page pos len src (begin_page pos len pg)"

text \<open>The size of the file after \<^verbatim>\<open>myfs_write_end\<close>.\<close>

definition new_size :: "inode \<Rightarrow> u64 \<Rightarrow> u32 \<Rightarrow> u64" where
  "new_size ino pos copied =
     (if sint (i_size ino) < sint (pos + ucast copied) then pos + ucast copied else i_size ino)"

text \<open>
  The page a write works on: the one the mapping has at the index, or else the new one,
  if the allocator gives one.
\<close>

definition page_before :: "inode \<Rightarrow> u64 \<Rightarrow> (nat \<Rightarrow> byte) option \<Rightarrow> page option" where
  "page_before ino index alloc =
     (case map_of (i_pages ino) index of
        Some pg \<Rightarrow> Some pg
      | None \<Rightarrow> map_option fresh_page alloc)"

text \<open>Whether a page pointer refers to a page that is dirty.\<close>

definition charged_at :: "myfs_state \<Rightarrow> nat \<times> u64 \<Rightarrow> bool" where
  "charged_at s pp = (case page_at s pp of None \<Rightarrow> False | Some (ino, pg) \<Rightarrow> PageDirty pg)"

text \<open>A sequence of writes to the inode \<open>host\<close>, run one after the other; a write that fails
  leaves the state to the next one.\<close>

fun writes ::
  "myfs_state \<Rightarrow> nat \<Rightarrow> (u64 \<times> u32 \<times> byte list \<times> (nat \<Rightarrow> byte) option) list \<Rightarrow> myfs_state" where
  "writes s host [] = s"
| "writes s host ((pos, len, src, alloc) # ws) =
     writes (snd (myfs_write s host pos len src alloc)) host ws"

text \<open>
  The inode \<^verbatim>\<open>myfs_get_inode\<close> has built when it calls the hook: the fields set before
  the \<^verbatim>\<open>switch\<close> and those set by the branch for the file type.
\<close>

definition built_inode :: "myfs_state \<Rightarrow> inode option \<Rightarrow> u16 \<Rightarrow> u32 \<Rightarrow> kcontext \<Rightarrow> inode" where
  "built_inode s dir mode dev ctx =
     (let ino2 = (inode_init_owner (new_inode\<lparr>i_ino := ucast (last_ino s + 1)\<rparr>) dir mode ctx)
                   \<lparr>a_ops := myfs_aops, gfp_mask := GFP_HIGHUSER, unevictable := True,
                    i_atime := CURRENT_TIME ctx, i_mtime := CURRENT_TIME ctx,
                    i_ctime := CURRENT_TIME ctx\<rparr>;
          fmt = mode AND S_IFMT
      in if fmt = S_IFREG then
           ino2\<lparr>i_op := myfs_file_inode_operations, i_fop := myfs_file_operations\<rparr>
         else if fmt = S_IFDIR then
           ino2\<lparr>i_op := myfs_dir_inode_operations, i_fop := simple_dir_operations,
                i_nlink := 2\<rparr>
         else if fmt = S_IFLNK then ino2\<lparr>i_op := page_symlink_inode_operations\<rparr>
         else init_special_inode ino2 mode dev)"

text \<open>
  The four entries of \<^verbatim>\<open>myfs_dir_inode_operations\<close> that create an inode, with the
  arguments each takes beside the directory and the dentry.
\<close>

datatype request = Mknod u16 u32 | Create u16 | Mkdir u16 | Symlink "byte list"

definition creation_request ::
  "myfs_state \<Rightarrow> nat \<Rightarrow> dentry \<Rightarrow> request \<Rightarrow> bool \<Rightarrow> (nat \<Rightarrow> byte) option \<Rightarrow> kcontext
   \<Rightarrow> (error + u32) \<times> dentry \<times> myfs_state" where
  "creation_request s dir dentry req alloc_ok alloc ctx =
     (case req of
        Mknod mode dev \<Rightarrow> myfs_mknod s dir dentry mode dev alloc_ok ctx
      | Create mode \<Rightarrow> myfs_create s dir dentry mode alloc_ok ctx
      | Mkdir mode \<Rightarrow> myfs_mkdir s dir dentry mode alloc_ok ctx
      | Symlink symname \<Rightarrow> myfs_symlink s dir dentry symname alloc_ok alloc ctx)"

text \<open>The mode a request passes to \<^verbatim>\<open>myfs_get_inode\<close>.\<close>

definition request_mode :: "request \<Rightarrow> u16" where
  "request_mode req =
     (case req of
        Mknod mode dev \<Rightarrow> mode
      | Create mode \<Rightarrow> mode OR S_IFREG
      | Mkdir mode \<Rightarrow> mode OR S_IFDIR
      | Symlink symname \<Rightarrow> S_IFLNK OR S_IRWXUGO)"

definition is_symlink :: "request \<Rightarrow> bool" where
  "is_symlink req = (case req of Symlink symname \<Rightarrow> True | _ \<Rightarrow> False)"

text \<open>A link target, with its terminating zero, fits into one page (it is at most
  \<^verbatim>\<open>PATH_MAX\<close> bytes long).\<close>

definition symname_fits :: "request \<Rightarrow> bool" where
  "symname_fits req =
     (case req of Symlink symname \<Rightarrow> length symname < PAGE_CACHE_SIZE | _ \<Rightarrow> True)"

text \<open>The arguments of the calls of the on-create hook, in the order of the calls.\<close>

fun on_create_calls :: "hook_call list \<Rightarrow> nat option list" where
  "on_create_calls [] = []"
| "on_create_calls (create_inode x # cs) = x # on_create_calls cs"
| "on_create_calls (delete_inode x # cs) = on_create_calls cs"

text \<open>The device number a request passes to \<^verbatim>\<open>myfs_get_inode\<close>.\<close>

definition request_dev :: "request \<Rightarrow> u32" where
  "request_dev req = (case req of Mknod mode dev \<Rightarrow> dev | _ \<Rightarrow> 0)"

text \<open>
  A fully initialized inode, field by field, for a request with mode \<open>mode\<close> and device
  number \<open>dev\<close> in the directory \<open>d\<close>: the next inode number; the mode asked for, with the
  set-group-id bit added for a directory made in a set-group-id directory; the caller as
  owner; the group of the caller, or of a set-group-id directory; two links for a
  directory and one otherwise; the device number for a character or block device; the
  current time in all three time stamps; the inode and file operations of the file type;
  \<^verbatim>\<open>myfs_aops\<close> and the flags of the mapping.
\<close>

definition initialized ::
  "myfs_state \<Rightarrow> kcontext \<Rightarrow> inode \<Rightarrow> u16 \<Rightarrow> u32 \<Rightarrow> inode \<Rightarrow> bool" where
  "initialized s ctx d mode dev ino =
     (i_ino ino = ucast (last_ino s + 1) \<and>
      i_mode ino =
        (if i_mode d AND S_ISGID \<noteq> 0 \<and> mode AND S_IFMT = S_IFDIR then mode OR S_ISGID
         else mode) \<and>
      i_uid ino = current_fsuid ctx \<and>
      i_gid ino = (if i_mode d AND S_ISGID \<noteq> 0 then i_gid d else current_fsgid ctx) \<and>
      i_nlink ino = (if mode AND S_IFMT = S_IFDIR then 2 else 1) \<and>
      i_rdev ino =
        (if mode AND S_IFMT = S_IFCHR \<or> mode AND S_IFMT = S_IFBLK then dev else 0) \<and>
      i_atime ino = CURRENT_TIME ctx \<and> i_mtime ino = CURRENT_TIME ctx \<and>
      i_ctime ino = CURRENT_TIME ctx \<and>
      i_op ino =
        (if mode AND S_IFMT = S_IFREG then myfs_file_inode_operations
         else if mode AND S_IFMT = S_IFDIR then myfs_dir_inode_operations
         else if mode AND S_IFMT = S_IFLNK then page_symlink_inode_operations
         else empty_iops) \<and>
      i_fop ino =
        (if mode AND S_IFMT = S_IFREG then myfs_file_operations
         else if mode AND S_IFMT = S_IFDIR then simple_dir_operations
         else if mode AND S_IFMT = S_IFCHR then def_chr_fops
         else if mode AND S_IFMT = S_IFBLK then def_blk_fops
         else if mode AND S_IFMT = S_IFIFO then pipefifo_fops
         else if mode AND S_IFMT = S_IFSOCK then bad_sock_fops
         else empty_fops) \<and>
      a_ops ino = myfs_aops \<and> gfp_mask ino = GFP_HIGHUSER \<and> unevictable ino)"

text \<open>
  The size and the pages of the new inode when the request returns: none, but for a
  symlink, whose page 0 holds the target, followed by zeros, up to date and dirty, and
  whose size is the length of the target.
\<close>

definition initial_contents :: "request \<Rightarrow> inode \<Rightarrow> bool" where
  "initial_contents req ino =
     (case req of
        Symlink symname \<Rightarrow>
          i_size ino = of_nat (length symname) \<and>
          i_pages ino =
            [(0, \<lparr>data = symname @ replicate (PAGE_CACHE_SIZE - length symname) 0,
                  PageUptodate = True, PageDirty = True\<rparr>)]
      | _ \<Rightarrow> i_size ino = 0 \<and> i_pages ino = [])"

text \<open>The state once a new inode object has been allocated, built and reported to the
  on-create hook.\<close>

definition with_new_inode :: "myfs_state \<Rightarrow> inode \<Rightarrow> myfs_state" where
  "with_new_inode s ino =
     s\<lparr>inodes := inodes s @ [Some ino], last_ino := last_ino s + 1,
       hook_calls := hook_calls s @ [create_inode (Some (length (inodes s)))]\<rparr>"

text \<open>The number of dirty pages of a page tree, and of all inodes together.\<close>

definition dirty_pages :: "(u64 \<times> page) list \<Rightarrow> nat" where
  "dirty_pages ps = length (filter (\<lambda>(k, pg). PageDirty pg) ps)"

definition charged_pages :: "myfs_state \<Rightarrow> nat" where
  "charged_pages s =
     sum_list (map (\<lambda>ps. case ps of None \<Rightarrow> 0 | Some ps \<Rightarrow> dirty_pages ps) (pages_of s))"

text \<open>No page of a page tree, of an inode object, of the state is clean.\<close>

definition all_dirty :: "(u64 \<times> page) list \<Rightarrow> bool" where
  "all_dirty ps = list_all (\<lambda>(k, pg). PageDirty pg) ps"

definition pages_dirty :: "(u64 \<times> page) list option \<Rightarrow> bool" where
  "pages_dirty ps = (case ps of None \<Rightarrow> True | Some ps \<Rightarrow> all_dirty ps)"

definition no_clean_page :: "myfs_state \<Rightarrow> bool" where
  "no_clean_page s = list_all pages_dirty (pages_of s)"

text \<open>The used-block count, read as the \<^verbatim>\<open>long\<close> it is, is the number of dirty pages.\<close>

definition ledger_exact :: "myfs_state \<Rightarrow> bool" where
  "ledger_exact s = (sint (used_blocks (sb s)) = int (charged_pages s))"

text \<open>
  Writes and unlinks as steps on the state. A step that fails leaves the state it
  returns to the next step.
\<close>

datatype op =
  Write nat u64 u32 "byte list" "(nat \<Rightarrow> byte) option"
  | Unlink nat dentry kcontext

fun step :: "myfs_state \<Rightarrow> op \<Rightarrow> myfs_state" where
  "step s (Write host pos len src alloc) = snd (myfs_write s host pos len src alloc)"
| "step s (Unlink dir dentry ctx) = snd (snd (myfs_unlink s dir dentry ctx))"

fun run :: "myfs_state \<Rightarrow> op list \<Rightarrow> myfs_state" where
  "run s [] = s"
| "run s (x # xs) = run (step s x) xs"

text \<open>A write stays inside its page, as the callers of \<^verbatim>\<open>write_begin\<close> see to.\<close>

fun inside_page :: "op \<Rightarrow> bool" where
  "inside_page (Write host pos len src alloc) =
     (unat (page_offset pos) + unat len \<le> PAGE_CACHE_SIZE)"
| "inside_page (Unlink dir dentry ctx) = True"

text \<open>
  A small filesystem for the examples: blocks of 4096 bytes, a maximum of 4 blocks, a
  directory and a file of 100 bytes whose page 0 is dirty and charged.
\<close>

definition ex_page :: page where
  "ex_page = \<lparr>data = replicate PAGE_CACHE_SIZE 7, PageUptodate = True, PageDirty = True\<rparr>"

definition ex_dir :: inode where
  "ex_dir = new_inode\<lparr>i_ino := 1, i_mode := S_IFDIR OR 0x1ED, i_nlink := 2\<rparr>"

definition ex_file :: inode where
  "ex_file = new_inode\<lparr>i_ino := 2, i_mode := S_IFREG OR 0x1A4, i_size := 100,
     i_pages := [(0, ex_page)]\<rparr>"

definition ex_sb :: super_block where
  "ex_sb = \<lparr>s_magic = 0, s_blocksize = 4096, s_remove_count = 0, fs_max_size = 16384,
            used_blocks = 1\<rparr>"

definition ex_state :: myfs_state where
  "ex_state = \<lparr>sb = ex_sb, inodes = [Some ex_dir, Some ex_file], last_ino = 2,
               hook_calls = [], warnings = 0\<rparr>"

definition ex_ctx :: kcontext where
  "ex_ctx = \<lparr>current_fsuid = 0, current_fsgid = 0, CURRENT_TIME = 42\<rparr>"

definition ex_dentry :: dentry where
  "ex_dentry = \<lparr>d_inode = Some 1, d_count = 2\<rparr>"

text \<open>The same filesystem with all 4 blocks charged, and a dentry without an inode.\<close>

definition ex_full :: myfs_state where
  "ex_full = ex_state\<lparr>sb := ex_sb\<lparr>used_blocks := 4\<rparr>\<rparr>"

definition ex_negative :: dentry where
  "ex_negative = \<lparr>d_inode = None, d_count = 1\<rparr>"

text \<open>
  A sparse file of 4196 bytes: page 1 was written and is dirty and charged; page 0, a
  hole, has been read in through \<^verbatim>\<open>simple_readpage\<close> (the \<^verbatim>\<open>readpage\<close> member of
  \<^verbatim>\<open>myfs_aops\<close>), which leaves it zero-filled, up to date and clean.
\<close>

definition ex_hole_page :: page where
  "ex_hole_page = \<lparr>data = replicate PAGE_CACHE_SIZE 0, PageUptodate = True, PageDirty = False\<rparr>"

definition ex_sparse_file :: inode where
  "ex_sparse_file = new_inode\<lparr>i_ino := 2, i_mode := S_IFREG OR 0x1A4, i_size := 4196,
     i_pages := [(1, ex_page), (0, ex_hole_page)]\<rparr>"

definition ex_sparse :: myfs_state where
  "ex_sparse = \<lparr>sb = ex_sb, inodes = [Some ex_dir, Some ex_sparse_file], last_ino = 2,
                hook_calls = [], warnings = 0\<rparr>"

section \<open>Capacity reporting\<close>

lemma statfs_clamp_dead:
  "s_blocksize b \<noteq> 0 \<Longrightarrow>
   myfs_statfs b = Inr r \<Longrightarrow>
   f_bavail r = fs_max_size b div s_blocksize b - used_blocks b"
  by (auto simp: myfs_statfs_def Let_def)

text \<open>
  C1. The reported available count should be \<open>max 0 (maximum - used)\<close>. With a maximum of
  4 blocks (16384 bytes in blocks of 4096) and 5 blocks charged, \<^verbatim>\<open>myfs_statfs\<close> reports
  \<open>2^64 - 1\<close> available and free blocks, not 0: the clamp never fires on the unsigned field.
\<close>

theorem statfs_overshoot_wraps:
  "myfs_statfs \<lparr>s_magic = 0, s_blocksize = 4096, s_remove_count = 0,
                 fs_max_size = 16384, used_blocks = 5\<rparr>
   = Inr \<lparr>f_type = 0, f_bsize = 4096, f_namelen = 255, f_blocks = 4,
          f_bfree = 18446744073709551615, f_bavail = 18446744073709551615\<rparr>"
  by (simp add: myfs_statfs_def NAME_MAX_def Let_def)

section \<open>Basic facts about the state\<close>

lemma inode_at_set_inode:
  "inode_at (set_inode p ino s) q =
     (if q = p \<and> p < length (inodes s) then Some ino else inode_at s q)"
  by (auto simp: inode_at_def set_inode_def)

lemma sb_set_inode [simp]: "sb (set_inode p ino s) = sb s"
  by (simp add: set_inode_def)

lemma warnings_set_inode [simp]: "warnings (set_inode p ino s) = warnings s"
  by (simp add: set_inode_def)

lemma hook_calls_set_inode [simp]: "hook_calls (set_inode p ino s) = hook_calls s"
  by (simp add: set_inode_def)

lemma inode_at_Some_less: "inode_at s p = Some ino \<Longrightarrow> p < length (inodes s)"
  by (auto simp: inode_at_def split: if_splits)

lemma inodes_set_inode [simp]: "inodes (set_inode p ino s) = (inodes s)[p := Some ino]"
  by (simp add: set_inode_def)

lemma inode_at_WARN_ON [simp]: "inode_at (WARN_ON c s) p = inode_at s p"
  by (simp add: WARN_ON_def inode_at_def)

lemma sb_WARN_ON [simp]: "sb (WARN_ON c s) = sb s"
  by (simp add: WARN_ON_def)

lemma inodes_WARN_ON [simp]: "inodes (WARN_ON c s) = inodes s"
  by (simp add: WARN_ON_def)

lemma warnings_WARN_ON [simp]: "warnings (WARN_ON c s) = (if c then Suc (warnings s) else warnings s)"
  by (simp add: WARN_ON_def)

lemma hook_calls_WARN_ON [simp]: "hook_calls (WARN_ON c s) = hook_calls s"
  by (simp add: WARN_ON_def)

lemma pages_of_WARN_ON [simp]: "pages_of (WARN_ON c s) = pages_of s"
  by (simp add: pages_of_def)

lemma pages_of_sb_update [simp]: "pages_of (s\<lparr>sb := b\<rparr>) = pages_of s"
  by (simp add: pages_of_def)

lemma pages_of_set_inode:
  "pages_of (set_inode p ino s) = (pages_of s)[p := Some (i_pages ino)]"
  by (simp add: pages_of_def map_update)

lemma pages_of_nth:
  "inode_at s p = Some ino \<Longrightarrow> p < length (pages_of s) \<and> pages_of s ! p = Some (i_pages ino)"
  by (auto simp: pages_of_def inode_at_def split: if_splits)

lemma upd_inode_Some: "inode_at s p = Some ino \<Longrightarrow> upd_inode p f s = set_inode p (f ino) s"
  by (simp add: upd_inode_def)

lemma inode_at_upd_inode:
  "inode_at (upd_inode p f s) q = (if q = p then map_option f (inode_at s p) else inode_at s q)"
  by (auto simp: upd_inode_def inode_at_set_inode inode_at_Some_less split: option.splits)

lemma sb_upd_inode [simp]: "sb (upd_inode p f s) = sb s"
  by (simp add: upd_inode_def split: option.splits)

lemma warnings_upd_inode [simp]: "warnings (upd_inode p f s) = warnings s"
  by (simp add: upd_inode_def split: option.splits)

lemma hook_calls_upd_inode [simp]: "hook_calls (upd_inode p f s) = hook_calls s"
  by (simp add: upd_inode_def split: option.splits)

lemma pages_of_upd_inode:
  assumes "\<And>i. i_pages (f i) = i_pages i"
  shows "pages_of (upd_inode p f s) = pages_of s"
proof (cases "inode_at s p")
  case None
  then show ?thesis by (simp add: upd_inode_def)
next
  case (Some ino)
  from pages_of_nth [OF Some] have "(pages_of s)[p := Some (i_pages ino)] = pages_of s"
    by (metis list_update_id)
  with Some assms show ?thesis
    by (simp add: upd_inode_Some pages_of_set_inode)
qed

lemma unlink_steps:
  assumes "d_inode dentry = Some ip"
    and "inode_at s ip = Some ino"
    and "inode_at s dir = Some d"
  shows "\<exists>ino4 s4.
           inode_at s4 ip = Some ino4 \<and> i_nlink ino4 = i_nlink ino - 1 \<and>
           i_pages ino4 = i_pages ino \<and> sb s4 = sb s \<and> pages_of s4 = pages_of s \<and>
           hook_calls s4 = hook_calls s \<and>
           warnings s4 = (if i_nlink ino = 0 then Suc (warnings s) else warnings s) \<and>
           myfs_unlink s dir dentry ctx =
             (Inr 0, dput dentry, if i_nlink ino4 = 0 then final_delete ip ino4 s4 else s4)"
proof -
  define now where "now = CURRENT_TIME ctx"
  define s1 where "s1 = upd_inode dir (\<lambda>d. d\<lparr>i_mtime := now, i_ctime := now\<rparr>) s"
  define s2 where "s2 = upd_inode ip (\<lambda>i. i\<lparr>i_ctime := now\<rparr>) s1"
  define s3 where "s3 = WARN_ON (map_option i_nlink (inode_at s2 ip) = Some 0) s2"
  define s4 where "s4 = upd_inode ip (\<lambda>i. i\<lparr>i_nlink := i_nlink i - 1\<rparr>) s3"
  obtain ino1 where i1: "inode_at s1 ip = Some ino1" "i_nlink ino1 = i_nlink ino"
    "i_pages ino1 = i_pages ino"
    using assms(2,3) by (cases "ip = dir") (auto simp: s1_def inode_at_upd_inode)
  then obtain ino2 where i2: "inode_at s2 ip = Some ino2" "i_nlink ino2 = i_nlink ino"
    "i_pages ino2 = i_pages ino"
    by (auto simp: s2_def inode_at_upd_inode)
  then have i3: "inode_at s3 ip = Some ino2" by (simp add: s3_def)
  then obtain ino4 where i4: "inode_at s4 ip = Some ino4" "i_nlink ino4 = i_nlink ino - 1"
    "i_pages ino4 = i_pages ino"
    using i2 by (auto simp: s4_def inode_at_upd_inode)
  have sb4: "sb s4 = sb s" by (simp add: s4_def s3_def s2_def s1_def)
  have hk4: "hook_calls s4 = hook_calls s" by (simp add: s4_def s3_def s2_def s1_def)
  have w4: "warnings s4 = (if i_nlink ino = 0 then Suc (warnings s) else warnings s)"
    using i2 by (simp add: s4_def s3_def s2_def s1_def)
  have p4: "pages_of s4 = pages_of s"
    by (simp add: s4_def s3_def s2_def s1_def pages_of_upd_inode)
  have "myfs_unlink s dir dentry ctx =
          (Inr 0, dput dentry, if i_nlink ino4 = 0 then final_delete ip ino4 s4 else s4)"
    using assms i4(1)
    by (simp add: myfs_unlink_def Let_def s4_def s3_def s2_def s1_def now_def)
  with i4 sb4 hk4 w4 p4 show ?thesis by blast
qed

lemma inode_at_sb_update [simp]: "inode_at (s\<lparr>sb := b\<rparr>) p = inode_at s p"
  by (simp add: inode_at_def)

lemma page_at_sb_update [simp]: "page_at (s\<lparr>sb := b\<rparr>) pp = page_at s pp"
  by (simp add: page_at_def)

lemma ex_inode_at [simp]:
  "inode_at ex_state 0 = Some ex_dir" "inode_at ex_state (Suc 0) = Some ex_file"
  by (simp_all add: inode_at_def ex_state_def)

lemma ex_inodes_length [simp]: "length (inodes ex_state) = 2"
  by (simp add: ex_state_def)

lemma ex_sb_simps [simp]: "sb ex_state = ex_sb" "s_blocksize ex_sb = 4096"
  "fs_max_size ex_sb = 16384" "used_blocks ex_sb = 1"
  by (simp_all add: ex_state_def ex_sb_def)

lemma ex_pages_of: "pages_of ex_state = [Some [], Some [(0, ex_page)]]"
  by (simp add: pages_of_def ex_state_def ex_dir_def ex_file_def new_inode_def)

lemma ex_nrpages: "nrpages ex_file = 1"
  by (simp add: nrpages_def ex_file_def)

lemma ex_file_nlink: "i_nlink ex_file = 1"
  by (simp add: ex_file_def new_inode_def)

lemma get_inode_null:
  "myfs_get_inode s dir mode dev False ctx =
     (None, s\<lparr>hook_calls := hook_calls s @ [create_inode None]\<rparr>)"
  by (simp add: myfs_get_inode_def)

lemma write_begin_full:
  assumes "inode_at s host = Some ino"
    and "s_blocksize (sb s) \<noteq> 0"
    and "sint (fs_max_size (sb s) div s_blocksize (sb s)) \<le> sint (used_blocks (sb s))"
  shows "myfs_write_begin s host pos len alloc = (Inl ENOMEM, s)"
  using assms by (simp add: myfs_write_begin_def Let_def)

section \<open>Facts about the write path\<close>

lemma set_page_dirty_eq: "set_page_dirty pg = (\<not> PageDirty pg, pg\<lparr>PageDirty := True\<rparr>)"
  by (cases pg) (simp add: set_page_dirty_def myset_page_dirty_no_writeback_def TestSetPageDirty_def)

lemma SetPageUptodate_if:
  "(if \<not> PageUptodate pg then SetPageUptodate pg else pg) = pg\<lparr>PageUptodate := True\<rparr>"
  by (cases pg) (simp add: SetPageUptodate_def)

lemma unat_add_small:
  fixes a b :: u32
  assumes "unat a + unat b \<le> PAGE_CACHE_SIZE"
  shows "unat (a + b) = unat a + unat b"
proof -
  have "unat a + unat b < 2 ^ LENGTH(32)"
    using assms by (simp add: PAGE_CACHE_SIZE_def)
  then show ?thesis by (simp only: unat_add_lem)
qed

lemma zero_user_short:
  fixes off copied len :: u32
  assumes "copied < len" and "unat off + unat len \<le> PAGE_CACHE_SIZE"
  shows "zero_user pg (off + copied) (len - copied) =
           Some (pg\<lparr>data := memset0 (unat off + unat copied) (unat len - unat copied) (data pg)\<rparr>)"
proof -
  have cl: "unat copied < unat len" using assms(1) by (simp add: word_less_nat_alt)
  have e: "off + copied + (len - copied) = off + len" by simp
  have u1: "unat (off + len) = unat off + unat len"
    using assms(2) by (rule unat_add_small)
  have u2: "unat (off + copied) = unat off + unat copied"
    using assms(2) cl by (intro unat_add_small) simp
  have u3: "unat (len - copied) = unat len - unat copied"
    using assms(1) by (simp add: unat_sub order_less_imp_le)
  have lt: "off + copied < off + len"
    using cl by (simp add: word_less_nat_alt u1 u2)
  show ?thesis
    using assms(2) lt
    by (simp add: zero_user_def zero_user_segments_def e u1 u2 u3 Let_def PAGE_CACHE_SIZE_def)
qed

lemma map_of_put:
  "map_of (map (\<lambda>(k, p). if k = idx then (k, pg) else (k, p)) ps) j =
     (if j = idx then map_option (\<lambda>_. pg) (map_of ps idx) else map_of ps j)"
  by (induction ps) auto

lemma page_at_put:
  assumes "inode_at s h = Some ino0" and "map_of (i_pages ino) idx = Some pg0"
  shows "page_at (set_inode h (put_page idx pg ino) s) (h, idx) = Some (put_page idx pg ino, pg)"
  using assms
  by (simp add: page_at_def inode_at_set_inode inode_at_Some_less put_page_def map_of_put)

lemma page_atD:
  "page_at s pp = Some (ino, pg) \<Longrightarrow>
   inode_at s (fst pp) = Some ino \<and> map_of (i_pages ino) (snd pp) = Some pg"
  by (auto simp: page_at_def split: option.splits)

lemma write_end_steps:
  assumes pa: "page_at s pp = Some (ino, pg)"
    and fit: "copied < len \<longrightarrow> unat (page_offset pos) + unat len \<le> PAGE_CACHE_SIZE"
  shows "myfs_write_end s pos len copied pp =
           (Inr copied,
            (set_inode (fst pp)
               (put_page (snd pp)
                  (pg\<lparr>data := zero_gap pos len copied (data pg), PageUptodate := True,
                       PageDirty := True\<rparr>)
                  (ino\<lparr>i_size := (if sint (i_size ino) < sint (pos + ucast copied)
                                    then pos + ucast copied else i_size ino)\<rparr>)) s)
            \<lparr>sb := (if PageDirty pg then sb s else atomic_long_inc_used (sb s))\<rparr>)"
proof (cases "PageDirty pg")
  case True
  with fit show ?thesis
    unfolding myfs_write_end_def pa
    by (cases pg; cases ino)
      (simp add: Let_def set_page_dirty_eq SetPageUptodate_def zero_user_short zero_gap_def
        set_inode_def)
next
  case False
  with fit show ?thesis
    unfolding myfs_write_end_def pa
    by (cases pg; cases ino)
      (simp add: Let_def set_page_dirty_eq SetPageUptodate_def zero_user_short zero_gap_def
        set_inode_def)
qed

lemma memset0_none [simp]: "memset0 a 0 d = d"
  by (rule nth_equalityI) (auto simp: memset0_def)

lemma length_memset0 [simp]: "length (memset0 a n d) = length d"
  by (simp add: memset0_def)

lemma nth_memset0:
  "i < length d \<Longrightarrow> memset0 a n d ! i = (if a \<le> i \<and> i < a + n then 0 else d ! i)"
  by (simp add: memset0_def)

lemma length_memcpy_at [simp]: "length (memcpy_at a src d) = length d"
  by (simp add: memcpy_at_def)

lemma nth_memcpy_at:
  "i < length d \<Longrightarrow>
   memcpy_at a src d ! i = (if a \<le> i \<and> i < a + length src then src ! (i - a) else d ! i)"
  by (simp add: memcpy_at_def)

lemma zero_user_segments_begin:
  fixes off len :: u32
  assumes "unat off + unat len \<le> PAGE_CACHE_SIZE"
  shows "zero_user_segments pg 0 off (off + len) (of_nat PAGE_CACHE_SIZE) =
           Some (pg\<lparr>data := memset0 (unat off + unat len) (PAGE_CACHE_SIZE - (unat off + unat len))
                                (memset0 0 (unat off) (data pg))\<rparr>)"
proof -
  have u1: "unat (off + len) = unat off + unat len"
    using assms by (rule unat_add_small)
  have le: "off + len \<le> 4096"
    using assms by (simp add: word_le_nat_alt u1 PAGE_CACHE_SIZE_def)
  have u2: "unat (4096 - (off + len)) = 4096 - (unat off + unat len)"
    using le by (simp add: unat_sub u1)
  have off0: "\<not> 0 < off \<Longrightarrow> unat off = 0"
    by (simp add: word_less_nat_alt)
  have e: "\<not> off + len < 4096 \<Longrightarrow> unat off + unat len = 4096"
    using le u1 by (simp add: word_less_nat_alt word_le_nat_alt)
  show ?thesis
    using assms
    by (auto simp: zero_user_segments_def Let_def PAGE_CACHE_SIZE_def u1 u2 off0 e)
qed

lemma put_absent:
  "map_of ps idx = None \<Longrightarrow> map (\<lambda>(k, p). if k = idx then (k, pg) else (k, p)) ps = ps"
  by (induction ps) (auto split: if_splits)

lemma put_page_append:
  "map_of (i_pages ino) idx = None \<Longrightarrow>
   put_page idx pg (ino\<lparr>i_pages := i_pages ino @ [(idx, pg0)]\<rparr>)
     = ino\<lparr>i_pages := i_pages ino @ [(idx, pg)]\<rparr>"
  by (simp add: put_page_def put_absent)

lemma write_begin_steps:
  assumes "inode_at s host = Some ino"
    and "s_blocksize (sb s) \<noteq> 0"
    and "sint (used_blocks (sb s)) < sint (fs_max_size (sb s) div s_blocksize (sb s))"
    and "unat (page_offset pos) + unat len \<le> PAGE_CACHE_SIZE"
  shows "myfs_write_begin s host pos len alloc =
           (case map_of (i_pages ino) (page_index pos) of
              Some pg \<Rightarrow>
                (Inr (host, page_index pos),
                 set_inode host (put_page (page_index pos) (begin_page pos len pg) ino) s)
            | None \<Rightarrow>
                (case alloc of
                   None \<Rightarrow> (Inl ENOMEM, s)
                 | Some g \<Rightarrow>
                     (Inr (host, page_index pos),
                      set_inode host
                        (ino\<lparr>i_pages := i_pages ino @
                           [(page_index pos, begin_page pos len (fresh_page g))]\<rparr>) s)))"
proof (cases "map_of (i_pages ino) (page_index pos)")
  case (Some pg)
  with assms show ?thesis
    by (simp add: myfs_write_begin_def Let_def grab_cache_page_write_begin_def
        zero_user_segments_begin begin_page_def)
next
  case None
  show ?thesis
  proof (cases alloc)
    case N: None
    with None assms show ?thesis
      by (simp add: myfs_write_begin_def Let_def grab_cache_page_write_begin_def)
  next
    case (Some g)
    with None assms show ?thesis
      by (simp add: myfs_write_begin_def Let_def grab_cache_page_write_begin_def
        zero_user_segments_begin begin_page_def fresh_page_def put_page_append)
  qed
qed

lemma set_inode_twice [simp]: "set_inode p a (set_inode p b s) = set_inode p a s"
  by (simp add: set_inode_def)

lemma put_twice:
  "map (\<lambda>(k, p). if k = idx then (k, a) else (k, p))
     (map (\<lambda>(k, p). if k = idx then (k, b) else (k, p)) ps)
   = map (\<lambda>(k, p). if k = idx then (k, a) else (k, p)) ps"
  by (induction ps) auto

lemma put_page_twice [simp]: "put_page idx a (put_page idx b ino) = put_page idx a ino"
  by (simp add: put_page_def put_twice del: map_map)

lemma put_page_i_size: "put_page idx a (ino\<lparr>i_size := x\<rparr>) = (put_page idx a ino)\<lparr>i_size := x\<rparr>"
  by (simp add: put_page_def)

lemma i_size_put_page [simp]: "i_size (put_page idx a ino) = i_size ino"
  by (simp add: put_page_def)

lemma PageDirty_begin_page [simp]: "PageDirty (begin_page pos len pg) = PageDirty pg"
  by (simp add: begin_page_def)

lemma PageDirty_fresh_page [simp]: "\<not> PageDirty (fresh_page g)"
  by (simp add: fresh_page_def)

lemma page_at_append:
  assumes "inode_at s h = Some ino0" and "map_of ps idx = None"
  shows "page_at (set_inode h (ino\<lparr>i_pages := ps @ [(idx, pg)]\<rparr>) s) (h, idx)
           = Some (ino\<lparr>i_pages := ps @ [(idx, pg)]\<rparr>, pg)"
  using assms
  by (simp add: page_at_def inode_at_set_inode inode_at_Some_less map_add_def)

lemma write_steps:
  assumes ia: "inode_at s host = Some ino"
    and bs: "s_blocksize (sb s) \<noteq> 0"
    and adm: "sint (used_blocks (sb s)) < sint (fs_max_size (sb s) div s_blocksize (sb s))"
    and fit: "unat (page_offset pos) + unat len \<le> PAGE_CACHE_SIZE"
  shows "myfs_write s host pos len src alloc =
           (case map_of (i_pages ino) (page_index pos) of
              Some pg \<Rightarrow>
                (Inr (of_nat (length src)),
                 (set_inode host
                    (put_page (page_index pos) (written_page pos len src pg)
                       (ino\<lparr>i_size := new_size ino pos (of_nat (length src))\<rparr>)) s)
                 \<lparr>sb := (if PageDirty pg then sb s else atomic_long_inc_used (sb s))\<rparr>)
            | None \<Rightarrow>
                (case alloc of
                   None \<Rightarrow> (Inl ENOMEM, s)
                 | Some g \<Rightarrow>
                     (Inr (of_nat (length src)),
                      (set_inode host
                         (ino\<lparr>i_size := new_size ino pos (of_nat (length src)),
                              i_pages := i_pages ino @
                                [(page_index pos, written_page pos len src (fresh_page g))]\<rparr>) s)
                      \<lparr>sb := atomic_long_inc_used (sb s)\<rparr>)))"
proof (cases "map_of (i_pages ino) (page_index pos)")
  case (Some pg)
  let ?idx = "page_index pos"
  define pg1 where "pg1 = begin_page pos len pg"
  define s1 where "s1 = set_inode host (put_page ?idx pg1 ino) s"
  define pg2 where "pg2 = pg1\<lparr>data := memcpy_at (unat (page_offset pos)) src (data pg1)\<rparr>"
  let ?s2 = "set_inode host (put_page ?idx pg2 ino) s"
  have wb: "myfs_write_begin s host pos len alloc = (Inr (host, ?idx), s1)"
    using Some by (simp add: write_begin_steps [OF ia bs adm fit] s1_def pg1_def)
  have p1: "page_at s1 (host, ?idx) = Some (put_page ?idx pg1 ino, pg1)"
    unfolding s1_def using ia Some by (intro page_at_put) simp_all
  have c: "copy_to_page s1 (host, ?idx) (unat (page_offset pos)) src = ?s2"
    by (simp add: copy_to_page_def p1 pg2_def) (simp add: s1_def)
  have p2: "page_at ?s2 (host, ?idx) = Some (put_page ?idx pg2 ino, pg2)"
    using ia Some by (intro page_at_put) simp_all
  have f: "of_nat (length src) < len \<longrightarrow> unat (page_offset pos) + unat len \<le> PAGE_CACHE_SIZE"
    using fit by simp
  have e: "pg2\<lparr>data := zero_gap pos len (of_nat (length src)) (data pg2), PageUptodate := True,
                PageDirty := True\<rparr> = written_page pos len src pg"
    by (simp add: written_page_def end_page_def pg2_def pg1_def)
  have d: "PageDirty pg2 = PageDirty pg" by (simp add: pg2_def pg1_def)
  show ?thesis
    using Some
    by (simp add: myfs_write_def wb c write_end_steps [OF p2 f] e d new_size_def
        put_page_i_size)
next
  case None
  show ?thesis
  proof (cases alloc)
    case N: None
    with None show ?thesis
      by (simp add: myfs_write_def write_begin_steps [OF ia bs adm fit])
  next
    case (Some g)
    let ?idx = "page_index pos"
    define pg1 where "pg1 = begin_page pos len (fresh_page g)"
    define s1 where "s1 = set_inode host (ino\<lparr>i_pages := i_pages ino @ [(?idx, pg1)]\<rparr>) s"
    define pg2 where "pg2 = pg1\<lparr>data := memcpy_at (unat (page_offset pos)) src (data pg1)\<rparr>"
    let ?s2 = "set_inode host (ino\<lparr>i_pages := i_pages ino @ [(?idx, pg2)]\<rparr>) s"
    have wb: "myfs_write_begin s host pos len (Some g) = (Inr (host, ?idx), s1)"
      using None
      by (simp add: write_begin_steps [OF ia bs adm fit] s1_def pg1_def)
    have p1: "page_at s1 (host, ?idx) = Some (ino\<lparr>i_pages := i_pages ino @ [(?idx, pg1)]\<rparr>, pg1)"
      unfolding s1_def using ia None by (intro page_at_append) simp_all
    have c: "copy_to_page s1 (host, ?idx) (unat (page_offset pos)) src = ?s2"
      using None
      by (simp add: copy_to_page_def p1 pg2_def put_page_append)
        (simp add: s1_def)
    have p2: "page_at ?s2 (host, ?idx) = Some (ino\<lparr>i_pages := i_pages ino @ [(?idx, pg2)]\<rparr>, pg2)"
      using ia None by (intro page_at_append) simp_all
    have f: "of_nat (length src) < len \<longrightarrow> unat (page_offset pos) + unat len \<le> PAGE_CACHE_SIZE"
      using fit by simp
    have e: "pg2\<lparr>data := zero_gap pos len (of_nat (length src)) (data pg2), PageUptodate := True,
                  PageDirty := True\<rparr> = written_page pos len src (fresh_page g)"
      by (simp add: written_page_def end_page_def pg2_def pg1_def)
    have d: "\<not> PageDirty pg2" by (simp add: pg2_def pg1_def)
    have pp: "put_page ?idx pgx (ino\<lparr>i_pages := i_pages ino @ [(?idx, pg2)]\<rparr>\<lparr>i_size := x\<rparr>)
               = ino\<lparr>i_size := x, i_pages := i_pages ino @ [(?idx, pgx)]\<rparr>" for pgx x
      using None by (simp add: put_page_def put_absent)
    show ?thesis
      using None Some
      by (simp add: myfs_write_def wb c write_end_steps [OF p2 f] e d new_size_def pp)
  qed
qed

lemma unat_of_nat_src:
  fixes len :: u32
  assumes "length src \<le> unat len"
  shows "unat (of_nat (length src) :: u32) = length src"
proof -
  have "unat len < 2 ^ LENGTH(32)" by (rule unsigned_less)
  with assms have "length src < 2 ^ LENGTH(32)" by simp
  then show ?thesis by (simp add: unat_of_nat)
qed

lemma zero_gap_src:
  fixes len :: u32
  assumes "length src \<le> unat len"
  shows "zero_gap pos len (of_nat (length src)) d =
           memset0 (unat (page_offset pos) + length src) (unat len - length src) d"
proof (cases "(of_nat (length src) :: u32) < len")
  case True
  then show ?thesis by (simp add: zero_gap_def unat_of_nat_src [OF assms])
next
  case False
  then have "unat len \<le> length src"
    by (simp add: word_less_nat_alt unat_of_nat_src [OF assms])
  with False show ?thesis by (simp add: zero_gap_def)
qed

lemma length_data_written_page [simp]:
  "length (data (written_page pos len src pg)) = length (data pg)"
  by (simp add: written_page_def end_page_def begin_page_def zero_gap_def)

lemma nth_data_written_page:
  fixes len :: u32
  assumes d: "length (data pg) = PAGE_CACHE_SIZE"
    and fit: "unat (page_offset pos) + unat len \<le> PAGE_CACHE_SIZE"
    and ls: "length src \<le> unat len"
    and i: "i < PAGE_CACHE_SIZE"
  shows "data (written_page pos len src pg) ! i =
           (if unat (page_offset pos) \<le> i \<and> i < unat (page_offset pos) + length src
            then src ! (i - unat (page_offset pos))
            else if unat (page_offset pos) + length src \<le> i \<and>
                    i < unat (page_offset pos) + unat len then 0
            else if PageUptodate pg then data pg ! i else 0)"
proof -
  let ?off = "unat (page_offset pos)"
  have full: "unat len = PAGE_CACHE_SIZE \<Longrightarrow> ?off = 0"
    using fit by simp
  show ?thesis
    using d fit ls i full
    by (auto simp: written_page_def end_page_def begin_page_def zero_gap_src
        nth_memset0 nth_memcpy_at)
qed

lemma written_bytes:
  fixes len :: u32
  assumes d: "length (data pg) = PAGE_CACHE_SIZE"
    and fit: "unat (page_offset pos) + unat len \<le> PAGE_CACHE_SIZE"
    and ls: "length src \<le> unat len"
  shows "data (written_page pos len src pg) =
           (if PageUptodate pg then
              take (unat (page_offset pos)) (data pg) @ src @
              replicate (unat len - length src) 0 @
              drop (unat (page_offset pos) + unat len) (data pg)
            else
              replicate (unat (page_offset pos)) 0 @ src @
              replicate (PAGE_CACHE_SIZE - (unat (page_offset pos) + length src)) 0)"
proof (rule nth_equalityI)
  show "length (data (written_page pos len src pg)) = length (if PageUptodate pg then
              take (unat (page_offset pos)) (data pg) @ src @
              replicate (unat len - length src) 0 @
              drop (unat (page_offset pos) + unat len) (data pg)
            else
              replicate (unat (page_offset pos)) 0 @ src @
              replicate (PAGE_CACHE_SIZE - (unat (page_offset pos) + length src)) 0)"
    using assms by auto
next
  fix i assume "i < length (data (written_page pos len src pg))"
  then have i: "i < PAGE_CACHE_SIZE" using d by simp
  show "data (written_page pos len src pg) ! i = (if PageUptodate pg then
              take (unat (page_offset pos)) (data pg) @ src @
              replicate (unat len - length src) 0 @
              drop (unat (page_offset pos) + unat len) (data pg)
            else
              replicate (unat (page_offset pos)) 0 @ src @
              replicate (PAGE_CACHE_SIZE - (unat (page_offset pos) + length src)) 0) ! i"
    unfolding nth_data_written_page [OF d fit ls i]
    using d fit ls i
    by (auto simp: nth_append min_def)
qed

lemma data_begin_page:
  fixes len :: u32
  assumes d: "length (data pg) = PAGE_CACHE_SIZE"
    and fit: "unat (page_offset pos) + unat len \<le> PAGE_CACHE_SIZE"
    and nu: "\<not> PageUptodate pg" "unat len \<noteq> PAGE_CACHE_SIZE"
  shows "data (begin_page pos len pg) =
           replicate (unat (page_offset pos)) 0 @
           take (unat len) (drop (unat (page_offset pos)) (data pg)) @
           replicate (PAGE_CACHE_SIZE - (unat (page_offset pos) + unat len)) 0"
  using assms
  by (intro nth_equalityI) (auto simp: begin_page_def nth_memset0 nth_append min_def)

section \<open>Admission\<close>

text \<open>
  C4. A write that arrives when the used-block count is at or above the maximum
  \<open>fs_max_size div s_blocksize\<close> is rejected with \<open>ENOMEM\<close> and the state, page store
  included, is the one before the call. Both counts are compared as the \<^verbatim>\<open>long\<close>s the code
  declares. The inode is a live object and the block size is not zero.
\<close>

theorem write_begin_rejects_when_full:
  assumes "inode_at s host = Some ino"
    and "s_blocksize (sb s) \<noteq> 0"
    and "sint (fs_max_size (sb s) div s_blocksize (sb s)) \<le> sint (used_blocks (sb s))"
  shows "myfs_write_begin s host pos len alloc = (Inl ENOMEM, s)"
  using assms by (simp add: myfs_write_begin_def Let_def)

theorem write_begin_rejects_when_full_witness:
  "myfs_write_begin (ex_state\<lparr>sb := ex_sb\<lparr>used_blocks := 4\<rparr>\<rparr>) 1 8192 100 (Some (\<lambda>_. 1))
     = (Inl ENOMEM, ex_state\<lparr>sb := ex_sb\<lparr>used_blocks := 4\<rparr>\<rparr>)"
  by (rule write_begin_rejects_when_full [where ino = ex_file]) (simp_all add: ex_sb_def)

section \<open>Completing a write\<close>

text \<open>
  C7. \<^verbatim>\<open>myfs_write_end\<close> for \<open>copied\<close> bytes at \<open>pos\<close> returns \<open>copied\<close>, leaves the page
  up to date, and the size of the file is \<open>pos + copied\<close> if that is greater than the size
  before (as \<^verbatim>\<open>loff_t\<close>) and the size before otherwise. The page pointer refers to a page
  of a live inode, and a short copy belongs to a write that stays inside its page.
\<close>

theorem write_end_result:
  assumes "page_at s pp = Some (ino, pg)"
    and "copied < len \<longrightarrow> unat (page_offset pos) + unat len \<le> PAGE_CACHE_SIZE"
  shows "\<exists>s' ino' pg'.
           myfs_write_end s pos len copied pp = (Inr copied, s') \<and>
           page_at s' pp = Some (ino', pg') \<and> PageUptodate pg' \<and>
           i_size ino' = (if sint (i_size ino) < sint (pos + ucast copied)
                          then pos + ucast copied else i_size ino)"
proof -
  from assms(1) have "inode_at s (fst pp) = Some ino" "map_of (i_pages ino) (snd pp) = Some pg"
    by (simp_all add: page_atD)
  then show ?thesis
    unfolding write_end_steps [OF assms]
    by (cases pp) (simp add: page_at_put)
qed

theorem write_end_result_witness:
  "\<exists>s'. myfs_write_end ex_state 90 20 12 (1, 0) = (Inr 12, s') \<and>
     (case page_at s' (1, 0) of None \<Rightarrow> False
      | Some (ino', pg') \<Rightarrow> PageUptodate pg' \<and> i_size ino' = 102)"
proof -
  have pa: "page_at ex_state (1, 0) = Some (ex_file, ex_page)"
    by (simp add: page_at_def ex_file_def)
  have "(12::u32) < 20 \<longrightarrow> unat (page_offset 90) + unat (20::u32) \<le> PAGE_CACHE_SIZE"
    by (simp add: page_offset_def PAGE_CACHE_SIZE_def)
  from write_end_result [OF pa this] show ?thesis
    by (auto simp: ex_file_def new_inode_def)
qed

section \<open>Zero filling\<close>

text \<open>
  C6. A write of \<open>len\<close> bytes that stays inside its page, of which the caller copies the
  \<open>length src \<le> len\<close> bytes \<open>src\<close>. After \<^verbatim>\<open>myfs_write_begin\<close>, unless the page was up to date
  or \<open>len\<close> is the page size, the bytes before and after the range of the write are zero.
  After the whole write, the page holds \<open>src\<close> at the offset of the write; on a page that
  was not up to date every other byte is zero, whatever the page frame held before; on a
  page that was up to date the bytes outside the range of the write are the ones it had
  and the gap between the bytes copied and \<open>len\<close> is zero.
\<close>

theorem write_zero_fills:
  fixes len :: u32
  assumes ia: "inode_at s host = Some ino"
    and bs: "s_blocksize (sb s) \<noteq> 0"
    and adm: "sint (used_blocks (sb s)) < sint (fs_max_size (sb s) div s_blocksize (sb s))"
    and fit: "unat (page_offset pos) + unat len \<le> PAGE_CACHE_SIZE"
    and ls: "length src \<le> unat len"
    and pb: "page_before ino (page_index pos) alloc = Some pg0"
    and d: "length (data pg0) = PAGE_CACHE_SIZE"
  shows "(\<exists>s1 ino1 pg1.
            myfs_write_begin s host pos len alloc = (Inr (host, page_index pos), s1) \<and>
            page_at s1 (host, page_index pos) = Some (ino1, pg1) \<and>
            data pg1 =
              (if \<not> PageUptodate pg0 \<and> unat len \<noteq> PAGE_CACHE_SIZE then
                 replicate (unat (page_offset pos)) 0 @
                 take (unat len) (drop (unat (page_offset pos)) (data pg0)) @
                 replicate (PAGE_CACHE_SIZE - (unat (page_offset pos) + unat len)) 0
               else data pg0)) \<and>
         (\<exists>s' ino' pg'.
            myfs_write s host pos len src alloc = (Inr (of_nat (length src)), s') \<and>
            page_at s' (host, page_index pos) = Some (ino', pg') \<and>
            data pg' =
              (if PageUptodate pg0 then
                 take (unat (page_offset pos)) (data pg0) @ src @
                 replicate (unat len - length src) 0 @
                 drop (unat (page_offset pos) + unat len) (data pg0)
               else
                 replicate (unat (page_offset pos)) 0 @ src @
                 replicate (PAGE_CACHE_SIZE - (unat (page_offset pos) + length src)) 0))"
proof -
  have b: "data (begin_page pos len pg0) =
             (if \<not> PageUptodate pg0 \<and> unat len \<noteq> PAGE_CACHE_SIZE then
                 replicate (unat (page_offset pos)) 0 @
                 take (unat len) (drop (unat (page_offset pos)) (data pg0)) @
                 replicate (PAGE_CACHE_SIZE - (unat (page_offset pos) + unat len)) 0
               else data pg0)"
  proof (cases "\<not> PageUptodate pg0 \<and> unat len \<noteq> PAGE_CACHE_SIZE")
    case True
    then show ?thesis using data_begin_page [OF d fit] by simp
  next
    case False
    then show ?thesis by (auto simp: begin_page_def)
  qed
  note w = written_bytes [OF d fit ls]
  show ?thesis
  proof (cases "map_of (i_pages ino) (page_index pos)")
    case (Some pg)
    with pb have pg: "pg = pg0" by (simp add: page_before_def)
    have m: "map_of (i_pages (ino\<lparr>i_size := x\<rparr>)) (page_index pos) = Some pg0" for x
      using Some pg by simp
    show ?thesis
      using Some pg
      by (simp add: write_begin_steps [OF ia bs adm fit] write_steps [OF ia bs adm fit]
          page_at_put [OF ia] page_at_put [OF ia m] b w)
  next
    case None
    with pb obtain g where g: "alloc = Some g" "pg0 = fresh_page g"
      by (auto simp: page_before_def)
    have a: "page_at (set_inode host (ino\<lparr>i_size := x, i_pages := i_pages ino @ [(page_index pos, pg)]\<rparr>) s)
               (host, page_index pos)
             = Some (ino\<lparr>i_size := x, i_pages := i_pages ino @ [(page_index pos, pg)]\<rparr>, pg)" for x pg
      using page_at_append [OF ia None, where ino = "ino\<lparr>i_size := x\<rparr>" and pg = pg] by simp
    show ?thesis
      using None g(1)
      by (simp add: write_begin_steps [OF ia bs adm fit] write_steps [OF ia bs adm fit]
          page_at_append [OF ia] a b w g(2) [symmetric])
  qed
qed

lemma ex_file_pages [simp]: "i_pages ex_file = [(0, ex_page)]"
  by (simp add: ex_file_def)

lemma fresh_page_simps [simp]:
  "\<not> PageUptodate (fresh_page g)" "length (data (fresh_page g)) = PAGE_CACHE_SIZE"
  by (simp_all add: fresh_page_def)

theorem write_zero_fills_witness:
  "\<exists>s' ino' pg'.
     myfs_write ex_state 1 4096 100 (replicate 60 1) (Some (\<lambda>_. 0xAA)) = (Inr 60, s') \<and>
     page_at s' (1, 1) = Some (ino', pg') \<and>
     data pg' = replicate 60 1 @ replicate 4036 0"
proof -
  have o: "page_offset 4096 = 0" "page_index 4096 = 1"
    by (simp_all add: page_offset_def page_index_def PAGE_CACHE_SIZE_def PAGE_CACHE_SHIFT_def)
  have bs: "s_blocksize (sb ex_state) \<noteq> 0" by simp
  have adm: "sint (used_blocks (sb ex_state))
               < sint (fs_max_size (sb ex_state) div s_blocksize (sb ex_state))" by simp
  have fit: "unat (page_offset 4096) + unat (100 :: u32) \<le> PAGE_CACHE_SIZE"
    by (simp add: o PAGE_CACHE_SIZE_def)
  have ls: "length (replicate 60 (1 :: byte)) \<le> unat (100 :: u32)" by simp
  have pb: "page_before ex_file (page_index 4096) (Some (\<lambda>_. 0xAA)) = Some (fresh_page (\<lambda>_. 0xAA))"
    by (simp add: page_before_def o)
  have d: "length (data (fresh_page (\<lambda>_. 0xAA))) = PAGE_CACHE_SIZE" by simp
  from write_zero_fills [OF ex_inode_at(2) bs adm fit ls pb d]
  show ?thesis
    by (simp add: o PAGE_CACHE_SIZE_def)
qed

section \<open>Charging\<close>

lemma PageDirty_written_page [simp]: "PageDirty (written_page pos len src pg)"
  by (simp add: written_page_def end_page_def)

lemma used_blocks_inc [simp]:
  "used_blocks (atomic_long_inc_used b) = used_blocks b + 1"
  by (simp add: atomic_long_inc_used_def)

lemma write_end_charge:
  assumes "page_at s pp = Some (ino, pg)"
    and "copied < len \<longrightarrow> unat (page_offset pos) + unat len \<le> PAGE_CACHE_SIZE"
  shows "used_blocks (sb (snd (myfs_write_end s pos len copied pp)))
           = used_blocks (sb s) + (if PageDirty pg then 0 else 1)"
  by (simp add: write_end_steps [OF assms])

lemma write_rejected:
  assumes "inode_at s host = None \<or> s_blocksize (sb s) = 0 \<or>
           sint (fs_max_size (sb s) div s_blocksize (sb s)) \<le> sint (used_blocks (sb s))"
  shows "snd (myfs_write s host pos len src alloc) = s"
proof -
  have "myfs_write_begin s host pos len alloc = (Inl Fault, s) \<or>
        myfs_write_begin s host pos len alloc = (Inl ENOMEM, s)"
  proof (cases "inode_at s host")
    case None
    then show ?thesis by (simp add: myfs_write_begin_def)
  next
    case (Some ino)
    with assms show ?thesis
      by (cases "s_blocksize (sb s) = 0") (simp_all add: myfs_write_begin_def Let_def)
  qed
  then show ?thesis by (auto simp: myfs_write_def)
qed

lemma write_charge_step:
  assumes fit: "unat (page_offset pos) + unat len \<le> PAGE_CACHE_SIZE"
    and idx: "page_index pos = idx"
  shows "used_blocks (sb (snd (myfs_write s host pos len src alloc)))
           = used_blocks (sb s) +
             (if charged_at (snd (myfs_write s host pos len src alloc)) (host, idx) \<and>
                 \<not> charged_at s (host, idx) then 1 else 0) \<and>
         (charged_at s (host, idx) \<longrightarrow>
            charged_at (snd (myfs_write s host pos len src alloc)) (host, idx))"
proof (cases "inode_at s host = None \<or> s_blocksize (sb s) = 0 \<or>
           sint (fs_max_size (sb s) div s_blocksize (sb s)) \<le> sint (used_blocks (sb s))")
  case True
  then show ?thesis by (simp add: write_rejected)
next
  case False
  then obtain ino where ia: "inode_at s host = Some ino"
    and bs: "s_blocksize (sb s) \<noteq> 0"
    and adm: "sint (used_blocks (sb s)) < sint (fs_max_size (sb s) div s_blocksize (sb s))"
    by auto
  note ws = write_steps [OF ia bs adm fit, of src alloc, unfolded idx]
  show ?thesis
  proof (cases "map_of (i_pages ino) idx")
    case (Some pg)
    have m: "map_of (i_pages (ino\<lparr>i_size := x\<rparr>)) idx = Some pg" for x
      using Some by simp
    have c0: "charged_at s (host, idx) = PageDirty pg"
      using ia Some by (simp add: charged_at_def page_at_def)
    have e: "snd (myfs_write s host pos len src alloc) =
               (set_inode host
                  (put_page idx (written_page pos len src pg)
                     (ino\<lparr>i_size := new_size ino pos (of_nat (length src))\<rparr>)) s)
               \<lparr>sb := (if PageDirty pg then sb s else atomic_long_inc_used (sb s))\<rparr>"
      by (subst ws) (simp add: Some)
    have c1: "charged_at (snd (myfs_write s host pos len src alloc)) (host, idx)"
      by (simp add: e charged_at_def page_at_put [OF ia m])
    have u: "used_blocks (sb (snd (myfs_write s host pos len src alloc)))
               = used_blocks (sb s) + (if PageDirty pg then 0 else 1)"
      by (simp add: e)
    show ?thesis by (simp add: c0 c1 u)
  next
    case None
    have c0: "\<not> charged_at s (host, idx)"
      using ia None by (simp add: charged_at_def page_at_def)
    have a: "page_at (set_inode host (ino\<lparr>i_size := x, i_pages := i_pages ino @ [(idx, pg)]\<rparr>) s)
               (host, idx)
             = Some (ino\<lparr>i_size := x, i_pages := i_pages ino @ [(idx, pg)]\<rparr>, pg)" for x pg
      using page_at_append [OF ia None, where ino = "ino\<lparr>i_size := x\<rparr>" and pg = pg] by simp
    show ?thesis
    proof (cases alloc)
      case N: None
      have e: "snd (myfs_write s host pos len src alloc) = s"
        by (subst ws) (simp add: None N)
      show ?thesis using c0 by (simp add: e)
    next
      case (Some g)
      have e: "snd (myfs_write s host pos len src alloc) =
                 (set_inode host
                    (ino\<lparr>i_size := new_size ino pos (of_nat (length src)),
                         i_pages := i_pages ino @
                           [(idx, written_page pos len src (fresh_page g))]\<rparr>) s)
                 \<lparr>sb := atomic_long_inc_used (sb s)\<rparr>"
        by (subst ws) (simp add: None Some)
      have c1: "charged_at (snd (myfs_write s host pos len src alloc)) (host, idx)"
        by (simp add: e charged_at_def a)
      have u: "used_blocks (sb (snd (myfs_write s host pos len src alloc)))
                 = used_blocks (sb s) + 1"
        by (simp add: e)
      show ?thesis by (simp add: c0 c1 u)
    qed
  qed
qed

text \<open>
  C3. Over any sequence of writes to one page (each staying inside the page), the
  used-block count grows by exactly one if the page goes from clean (or absent) to dirty,
  and not at all otherwise: the first write that dirties the page is charged one block,
  no write to the page once dirty is charged, and a dirty page stays dirty.
\<close>

theorem charge_once_per_page:
  assumes "\<forall>(pos, len, src, alloc) \<in> set ws.
             page_index pos = idx \<and> unat (page_offset pos) + unat len \<le> PAGE_CACHE_SIZE"
  shows "used_blocks (sb (writes s host ws))
           = used_blocks (sb s) +
             (if charged_at (writes s host ws) (host, idx) \<and> \<not> charged_at s (host, idx)
              then 1 else 0) \<and>
         (charged_at s (host, idx) \<longrightarrow> charged_at (writes s host ws) (host, idx))"
  using assms
proof (induction ws arbitrary: s)
  case Nil
  then show ?case by simp
next
  case (Cons w ws)
  obtain pos len src alloc where w: "w = (pos, len, src, alloc)"
    by (cases w) auto
  define s1 where "s1 = snd (myfs_write s host pos len src alloc)"
  from Cons.prems w have fit: "unat (page_offset pos) + unat len \<le> PAGE_CACHE_SIZE"
    and idx: "page_index pos = idx" by auto
  from write_charge_step [OF fit idx, of s host src alloc]
  have st: "used_blocks (sb s1) = used_blocks (sb s) +
             (if charged_at s1 (host, idx) \<and> \<not> charged_at s (host, idx) then 1 else 0)"
    "charged_at s (host, idx) \<longrightarrow> charged_at s1 (host, idx)"
    by (simp_all add: s1_def)
  from Cons.prems have "\<forall>(pos, len, src, alloc) \<in> set ws.
             page_index pos = idx \<and> unat (page_offset pos) + unat len \<le> PAGE_CACHE_SIZE"
    by simp
  from Cons.IH [OF this, of s1]
  have ih: "used_blocks (sb (writes s1 host ws)) = used_blocks (sb s1) +
             (if charged_at (writes s1 host ws) (host, idx) \<and> \<not> charged_at s1 (host, idx)
              then 1 else 0)"
    "charged_at s1 (host, idx) \<longrightarrow> charged_at (writes s1 host ws) (host, idx)"
    by simp_all
  have e: "writes s host (w # ws) = writes s1 host ws"
    by (simp add: w s1_def)
  show ?case
    unfolding e using st ih
    by (cases "charged_at s (host, idx)"; cases "charged_at s1 (host, idx)";
        cases "charged_at (writes s1 host ws) (host, idx)") simp_all
qed

theorem charge_once_per_page_witness:
  "used_blocks (sb (writes ex_state 1
      [(4096, 100, replicate 60 1, Some (\<lambda>_. 0xAA)), (4100, 10, [2, 3], None)])) = 2"
proof -
  let ?w1 = "(4096 :: u64, 100 :: u32, replicate 60 (1 :: byte), Some (\<lambda>_ :: nat. 0xAA :: byte))"
  let ?w2 = "(4100 :: u64, 10 :: u32, [2, 3 :: byte], None :: (nat \<Rightarrow> byte) option)"
  let ?s1 = "snd (myfs_write ex_state (Suc 0) 4096 100 (replicate 60 1) (Some (\<lambda>_. 0xAA)))"
  have o: "page_offset 4096 = 0" "page_index 4096 = 1" "page_offset 4100 = 4"
    "page_index 4100 = 1"
    by (simp_all add: page_offset_def page_index_def PAGE_CACHE_SIZE_def PAGE_CACHE_SHIFT_def)
  have h: "\<forall>(pos, len, src, alloc) \<in> set [?w1, ?w2].
             page_index pos = 1 \<and> unat (page_offset pos) + unat len \<le> PAGE_CACHE_SIZE"
    by (simp add: o PAGE_CACHE_SIZE_def)
  have h2: "\<forall>(pos, len, src, alloc) \<in> set [?w2].
             page_index pos = 1 \<and> unat (page_offset pos) + unat len \<le> PAGE_CACHE_SIZE"
    by (simp add: o PAGE_CACHE_SIZE_def)
  have c0: "\<not> charged_at ex_state (Suc 0, 1)"
    by (simp add: charged_at_def page_at_def)
  have bs: "s_blocksize (sb ex_state) \<noteq> 0" by simp
  have adm: "sint (used_blocks (sb ex_state))
               < sint (fs_max_size (sb ex_state) div s_blocksize (sb ex_state))" by simp
  have fit: "unat (page_offset 4096) + unat (100 :: u32) \<le> PAGE_CACHE_SIZE"
    by (simp add: o PAGE_CACHE_SIZE_def)
  have n: "map_of (i_pages ex_file) 1 = None" by simp
  have c1: "charged_at ?s1 (Suc 0, 1)"
    using page_at_append [OF ex_inode_at(2) n]
    by (simp add: write_steps [OF ex_inode_at(2) bs adm fit] o charged_at_def)
  from charge_once_per_page [OF h2, of ?s1 "Suc 0"] c1
  have c2: "charged_at (writes ex_state (Suc 0) [?w1, ?w2]) (Suc 0, 1)"
    by simp
  from charge_once_per_page [OF h, of ex_state "Suc 0"] c0 c2
  show ?thesis by simp
qed

section \<open>Unlinking\<close>

text \<open>
  C5. When the link count is still nonzero after the decrement, \<^verbatim>\<open>myfs_unlink\<close> leaves
  the used-block count and the pages of every inode as they were. When it becomes zero,
  the pages of that inode, and of no other, are dropped and their number \<open>nrpages\<close> is
  subtracted from the used-block count.
\<close>

theorem unlink_refund_only_at_zero:
  assumes "d_inode dentry = Some ip"
    and "inode_at s ip = Some ino"
    and "inode_at s dir = Some d"
  shows "case myfs_unlink s dir dentry ctx of
           (r, dentry', s') \<Rightarrow>
             r = Inr 0 \<and>
             (if i_nlink ino - 1 \<noteq> 0 then
                used_blocks (sb s') = used_blocks (sb s) \<and> pages_of s' = pages_of s
              else
                used_blocks (sb s') = used_blocks (sb s) - nrpages ino \<and>
                pages_of s' = (pages_of s)[ip := Some []])"
proof -
  from unlink_steps [OF assms, of ctx] obtain ino4 s4 where
    st: "inode_at s4 ip = Some ino4" "i_nlink ino4 = i_nlink ino - 1"
      "i_pages ino4 = i_pages ino" "sb s4 = sb s" "pages_of s4 = pages_of s"
      "myfs_unlink s dir dentry ctx =
         (Inr 0, dput dentry, if i_nlink ino4 = 0 then final_delete ip ino4 s4 else s4)"
    by blast
  show ?thesis
    using st
    by (simp add: final_delete_def pages_of_set_inode truncate_inode_pages_def nrpages_def)
qed


theorem unlink_refund_only_at_zero_witness:
  "(case myfs_unlink ex_state 0 ex_dentry ex_ctx of
      (r, dentry', s') \<Rightarrow>
        r = Inr 0 \<and> used_blocks (sb s') = 0 \<and> pages_of s' = [Some [], Some []]) \<and>
   (case myfs_unlink (set_inode 1 (ex_file\<lparr>i_nlink := 2\<rparr>) ex_state) 0 ex_dentry ex_ctx of
      (r, dentry', s') \<Rightarrow>
        r = Inr 0 \<and> used_blocks (sb s') = 1 \<and>
        pages_of s' = [Some [], Some [(0, ex_page)]])"
proof -
  have d: "d_inode ex_dentry = Some (Suc 0)" by (simp add: ex_dentry_def)
  have a: "inode_at (set_inode (Suc 0) (ex_file\<lparr>i_nlink := 2\<rparr>) ex_state) (Suc 0)
             = Some (ex_file\<lparr>i_nlink := 2\<rparr>)"
    "inode_at (set_inode (Suc 0) (ex_file\<lparr>i_nlink := 2\<rparr>) ex_state) 0 = Some ex_dir"
    by (simp_all add: inode_at_set_inode)
  have p: "pages_of (set_inode (Suc 0) (ex_file\<lparr>i_nlink := 2\<rparr>) ex_state)
             = [Some [], Some [(0, ex_page)]]"
    by (simp add: pages_of_set_inode ex_pages_of)
  show ?thesis
    using unlink_refund_only_at_zero [OF d ex_inode_at(2) ex_inode_at(1), of ex_ctx]
      unlink_refund_only_at_zero [OF d a, of ex_ctx]
    by (simp add: p ex_pages_of ex_nrpages ex_file_nlink split: prod.splits)
qed

text \<open>
  C9. Unlinking an inode whose link count is already zero raises one \<^verbatim>\<open>WARN_ON\<close>
  diagnostic and goes on: the call returns 0, the link count is decremented all the same
  (the \<^verbatim>\<open>unsigned int\<close> wraps to \<open>2^32 - 1\<close>), and nothing is refunded or dropped.
\<close>

theorem unlink_at_zero_warns_and_proceeds:
  assumes "d_inode dentry = Some ip"
    and "inode_at s ip = Some ino"
    and "inode_at s dir = Some d"
    and "i_nlink ino = 0"
  shows "case myfs_unlink s dir dentry ctx of
           (r, dentry', s') \<Rightarrow>
             r = Inr 0 \<and> warnings s' = Suc (warnings s) \<and>
             map_option i_nlink (inode_at s' ip) = Some (i_nlink ino - 1) \<and>
             i_nlink ino - 1 = 0xFFFFFFFF \<and>
             used_blocks (sb s') = used_blocks (sb s) \<and> pages_of s' = pages_of s"
proof -
  from unlink_steps [OF assms(1-3), of ctx] obtain ino4 s4 where
    st: "inode_at s4 ip = Some ino4" "i_nlink ino4 = i_nlink ino - 1"
      "sb s4 = sb s" "pages_of s4 = pages_of s"
      "warnings s4 = (if i_nlink ino = 0 then Suc (warnings s) else warnings s)"
      "myfs_unlink s dir dentry ctx =
         (Inr 0, dput dentry, if i_nlink ino4 = 0 then final_delete ip ino4 s4 else s4)"
    by blast
  show ?thesis
    using st assms(4) by simp
qed

theorem unlink_at_zero_warns_and_proceeds_witness:
  "case myfs_unlink (set_inode 1 (ex_file\<lparr>i_nlink := 0\<rparr>) ex_state) 0 ex_dentry ex_ctx of
     (r, dentry', s') \<Rightarrow>
       r = Inr 0 \<and> warnings s' = 1 \<and>
       map_option i_nlink (inode_at s' 1) = Some 0xFFFFFFFF \<and>
       used_blocks (sb s') = 1 \<and> pages_of s' = [Some [], Some [(0, ex_page)]]"
proof -
  have d: "d_inode ex_dentry = Some (Suc 0)" by (simp add: ex_dentry_def)
  have a: "inode_at (set_inode (Suc 0) (ex_file\<lparr>i_nlink := 0\<rparr>) ex_state) (Suc 0)
             = Some (ex_file\<lparr>i_nlink := 0\<rparr>)"
    "inode_at (set_inode (Suc 0) (ex_file\<lparr>i_nlink := 0\<rparr>) ex_state) 0 = Some ex_dir"
    by (simp_all add: inode_at_set_inode)
  have n: "i_nlink (ex_file\<lparr>i_nlink := 0\<rparr>) = 0" by simp
  have p: "pages_of (set_inode (Suc 0) (ex_file\<lparr>i_nlink := 0\<rparr>) ex_state)
             = [Some [], Some [(0, ex_page)]]"
    by (simp add: pages_of_set_inode ex_pages_of)
  have m: "(0xFFFFFFFF :: u32) = - 1" by simp
  have w: "warnings ex_state = 0"
    by (simp add: ex_state_def)
  show ?thesis
    using unlink_at_zero_warns_and_proceeds [OF d a n, of ex_ctx]
    by (auto simp: p w m split: prod.splits)
qed

section \<open>The ledger over writes and unlinks\<close>

lemma dirty_pages_all: "all_dirty ps \<Longrightarrow> dirty_pages ps = length ps"
  by (induction ps) (auto simp: dirty_pages_def all_dirty_def)

lemma charged_pages_update:
  assumes "p < length (pages_of s)" and "pages_of s ! p = Some ps"
    and "pages_of s' = (pages_of s)[p := Some ps']"
  shows "charged_pages s' + dirty_pages ps = charged_pages s + dirty_pages ps'"
proof -
  let ?f = "\<lambda>ps. case ps of None \<Rightarrow> 0 | Some ps \<Rightarrow> dirty_pages ps"
  have l: "p < length (map ?f (pages_of s))" using assms(1) by simp
  have m: "map ?f (pages_of s) ! p = dirty_pages ps" using assms(1,2) by simp
  have "map ?f (pages_of s) ! p \<le> sum_list (map ?f (pages_of s))"
    using l by (rule elem_le_sum_list)
  then have le: "dirty_pages ps \<le> sum_list (map ?f (pages_of s))"
    by (simp only: m)
  have "charged_pages s' = sum_list ((map ?f (pages_of s))[p := dirty_pages ps'])"
    by (simp add: charged_pages_def assms(3) map_update)
  also have "\<dots> = sum_list (map ?f (pages_of s)) + dirty_pages ps' - dirty_pages ps"
    by (simp only: sum_list_update [OF l] m)
  finally show ?thesis using le by (simp add: charged_pages_def)
qed

lemma no_clean_page_update:
  assumes "no_clean_page s" and "pages_of s' = (pages_of s)[p := Some ps']"
    and "all_dirty ps'"
  shows "no_clean_page s'"
proof -
  have "set (pages_of s') \<subseteq> insert (Some ps') (set (pages_of s))"
    unfolding assms(2) by (rule set_update_subset_insert)
  moreover have "pages_dirty (Some ps')" using assms(3) by (simp add: pages_dirty_def)
  moreover have "\<forall>x \<in> set (pages_of s). pages_dirty x"
    using assms(1) by (simp add: no_clean_page_def list_all_iff)
  ultimately show ?thesis
    unfolding no_clean_page_def list_all_iff by blast
qed

lemma no_clean_pageD:
  assumes "no_clean_page s" and "inode_at s p = Some ino"
  shows "all_dirty (i_pages ino)"
proof -
  from pages_of_nth [OF assms(2)] have "Some (i_pages ino) \<in> set (pages_of s)"
    by (metis nth_mem)
  moreover have "\<forall>x \<in> set (pages_of s). pages_dirty x"
    using assms(1) by (simp add: no_clean_page_def list_all_iff)
  ultimately have "pages_dirty (Some (i_pages ino))" by blast
  then show ?thesis by (simp add: pages_dirty_def)
qed

lemma sint_inc:
  fixes u m :: u64
  assumes "sint u < sint m"
  shows "sint (u + 1) = sint u + 1"
proof -
  have "sint m < 2 ^ (LENGTH(64) - 1)" by (rule sint_lt)
  moreover have "- (2 ^ (LENGTH(64) - 1)) \<le> sint u" by (rule sint_ge)
  ultimately have "signed_take_bit (LENGTH(64) - 1) (sint u + 1) = sint u + 1"
    using assms by (intro signed_take_bit_int_eq_self) simp_all
  then show ?thesis by (simp add: sint_word_add)
qed

lemma sint_refund:
  fixes u :: u64
  assumes "int n \<le> sint u"
  shows "sint (u - of_nat n) = sint u - int n"
proof -
  have u: "sint u < 2 ^ (LENGTH(64) - 1)" by (rule sint_lt)
  with assms have n: "int n < 2 ^ (LENGTH(64) - 1)" by simp
  then have "signed_take_bit (LENGTH(64) - 1) (int n) = int n"
    by (intro signed_take_bit_int_eq_self) simp_all
  then have s: "sint (of_nat n :: u64) = int n"
    by (simp add: signed_of_nat)
  have "signed_take_bit (LENGTH(64) - 1) (sint u - int n) = sint u - int n"
    using assms u by (intro signed_take_bit_int_eq_self) simp_all
  then show ?thesis by (simp add: sint_word_diff s)
qed

lemma unlink_no_inode:
  "d_inode dentry = None \<Longrightarrow> myfs_unlink s dir dentry ctx = (Inl Fault, dentry, s)"
  by (simp add: myfs_unlink_def)

lemma unlink_dangling:
  "d_inode dentry = Some ip \<Longrightarrow> inode_at s ip = None \<or> inode_at s dir = None \<Longrightarrow>
   myfs_unlink s dir dentry ctx = (Inl Fault, dentry, s)"
  by (simp add: myfs_unlink_def)

lemma pages_of_final_delete:
  "pages_of (final_delete p ino s) = (pages_of s)[p := Some []]"
  by (simp add: final_delete_def pages_of_set_inode truncate_inode_pages_def)

lemma used_final_delete:
  "used_blocks (sb (final_delete p ino s)) = used_blocks (sb s) - of_nat (length (i_pages ino))"
  by (simp add: final_delete_def nrpages_def)

lemma ledger_same:
  assumes "pages_of s' = pages_of s" and "used_blocks (sb s') = used_blocks (sb s)"
  shows "no_clean_page s' = no_clean_page s" and "ledger_exact s' = ledger_exact s"
  using assms by (simp_all add: no_clean_page_def ledger_exact_def charged_pages_def)

lemma dirty_pages_nil: "dirty_pages [] = 0"
  by (simp add: dirty_pages_def)

lemma unlink_keeps_ledger:
  assumes nc: "no_clean_page s" and le: "ledger_exact s"
  shows "no_clean_page (snd (snd (myfs_unlink s dir dentry ctx))) \<and>
         ledger_exact (snd (snd (myfs_unlink s dir dentry ctx)))"
proof (cases "d_inode dentry")
  case None
  with nc le show ?thesis by (simp add: unlink_no_inode)
next
  case (Some ip)
  show ?thesis
  proof (cases "inode_at s ip = None \<or> inode_at s dir = None")
    case True
    with nc le show ?thesis by (simp add: unlink_dangling [OF Some])
  next
    case False
    then obtain ino d where ia: "inode_at s ip = Some ino" and da: "inode_at s dir = Some d"
      by auto
    from unlink_steps [OF Some ia da, of ctx] obtain ino4 s4 where
      st: "i_pages ino4 = i_pages ino" "sb s4 = sb s" "pages_of s4 = pages_of s"
        "myfs_unlink s dir dentry ctx =
           (Inr 0, dput dentry, if i_nlink ino4 = 0 then final_delete ip ino4 s4 else s4)"
      by blast
    show ?thesis
    proof (cases "i_nlink ino4 = 0")
      case nz: False
      then have e: "snd (snd (myfs_unlink s dir dentry ctx)) = s4"
        using st(4) by simp
      have u: "used_blocks (sb s4) = used_blocks (sb s)" by (simp add: st(2))
      show ?thesis
        using nc le by (simp add: e ledger_same [OF st(3) u])
    next
      case True
      let ?s' = "final_delete ip ino4 s4"
      have e: "snd (snd (myfs_unlink s dir dentry ctx)) = ?s'"
        using st(4) True by simp
      have p': "pages_of ?s' = (pages_of s)[ip := Some []]"
        by (simp add: pages_of_final_delete st(3))
      have ad: "all_dirty (i_pages ino)" using nc ia by (rule no_clean_pageD)
      have nc': "no_clean_page ?s'"
        using nc p' by (rule no_clean_page_update) (simp add: all_dirty_def)
      from charged_pages_update [OF _ _ p', of "i_pages ino"] pages_of_nth [OF ia]
      have "charged_pages ?s' + dirty_pages (i_pages ino) = charged_pages s + dirty_pages []"
        by simp
      then have c: "charged_pages ?s' + length (i_pages ino) = charged_pages s"
        by (simp add: dirty_pages_all [OF ad] dirty_pages_nil)
      then have "int (length (i_pages ino)) \<le> sint (used_blocks (sb s))"
        using le by (simp add: ledger_exact_def)
      then have "sint (used_blocks (sb s) - of_nat (length (i_pages ino)))
                   = sint (used_blocks (sb s)) - int (length (i_pages ino))"
        by (rule sint_refund)
      then have "ledger_exact ?s'"
        using le c by (simp add: ledger_exact_def used_final_delete st(1,2))
      with nc' show ?thesis by (simp add: e)
    qed
  qed
qed

lemma all_dirty_put:
  "all_dirty ps \<Longrightarrow> PageDirty pg \<Longrightarrow>
   all_dirty (map (\<lambda>(k, p). if k = idx then (k, pg) else (k, p)) ps)"
  by (induction ps) (auto simp: all_dirty_def split: if_splits)

lemma all_dirty_append:
  "all_dirty ps \<Longrightarrow> PageDirty pg \<Longrightarrow> all_dirty (ps @ [(idx, pg)])"
  by (simp add: all_dirty_def)

lemma all_dirty_map_of:
  "all_dirty ps \<Longrightarrow> map_of ps idx = Some pg \<Longrightarrow> PageDirty pg"
  by (auto simp: all_dirty_def list_all_iff dest: map_of_SomeD)

lemma write_keeps_ledger:
  assumes nc: "no_clean_page s" and le: "ledger_exact s"
    and fit: "unat (page_offset pos) + unat len \<le> PAGE_CACHE_SIZE"
  shows "no_clean_page (snd (myfs_write s host pos len src alloc)) \<and>
         ledger_exact (snd (myfs_write s host pos len src alloc))"
proof (cases "inode_at s host = None \<or> s_blocksize (sb s) = 0 \<or>
           sint (fs_max_size (sb s) div s_blocksize (sb s)) \<le> sint (used_blocks (sb s))")
  case True
  then show ?thesis using nc le by (simp add: write_rejected)
next
  case False
  then obtain ino where ia: "inode_at s host = Some ino"
    and bs: "s_blocksize (sb s) \<noteq> 0"
    and adm: "sint (used_blocks (sb s)) < sint (fs_max_size (sb s) div s_blocksize (sb s))"
    by auto
  note ws = write_steps [OF ia bs adm fit, of src alloc]
  have ad: "all_dirty (i_pages ino)" using nc ia by (rule no_clean_pageD)
  note pn = pages_of_nth [OF ia]
  let ?idx = "page_index pos"
  show ?thesis
  proof (cases "map_of (i_pages ino) ?idx")
    case (Some pg)
    have d: "PageDirty pg" using ad Some by (rule all_dirty_map_of)
    let ?ps' = "map (\<lambda>(k, p). if k = ?idx then (k, written_page pos len src pg) else (k, p))
                  (i_pages ino)"
    let ?s' = "snd (myfs_write s host pos len src alloc)"
    have e: "?s' = (set_inode host
                  (put_page ?idx (written_page pos len src pg)
                     (ino\<lparr>i_size := new_size ino pos (of_nat (length src))\<rparr>)) s)
               \<lparr>sb := sb s\<rparr>"
      by (subst ws) (simp add: Some d)
    have p': "pages_of ?s' = (pages_of s)[host := Some ?ps']"
      by (simp add: e pages_of_set_inode put_page_def)
    have u: "used_blocks (sb ?s') = used_blocks (sb s)" by (simp add: e)
    have ad': "all_dirty ?ps'" using ad by (rule all_dirty_put) simp
    have nc': "no_clean_page ?s'" using nc p' ad' by (rule no_clean_page_update)
    from charged_pages_update [OF _ _ p', of "i_pages ino"] pn
    have "charged_pages ?s' + dirty_pages (i_pages ino) = charged_pages s + dirty_pages ?ps'"
      by simp
    then have "charged_pages ?s' = charged_pages s"
      by (simp add: dirty_pages_all [OF ad] dirty_pages_all [OF ad'])
    with le u have "ledger_exact ?s'" by (simp add: ledger_exact_def)
    with nc' show ?thesis by simp
  next
    case None
    show ?thesis
    proof (cases alloc)
      case N: None
      have "snd (myfs_write s host pos len src alloc) = s"
        by (subst ws) (simp add: None N)
      with nc le show ?thesis by simp
    next
      case (Some g)
      let ?wp = "written_page pos len src (fresh_page g)"
      let ?ps' = "i_pages ino @ [(?idx, ?wp)]"
      let ?s' = "snd (myfs_write s host pos len src alloc)"
      have e: "?s' = (set_inode host
                    (ino\<lparr>i_size := new_size ino pos (of_nat (length src)),
                         i_pages := ?ps'\<rparr>) s)
                 \<lparr>sb := atomic_long_inc_used (sb s)\<rparr>"
        by (subst ws) (simp add: None Some)
      have p': "pages_of ?s' = (pages_of s)[host := Some ?ps']"
        by (simp add: e pages_of_set_inode)
      have u: "used_blocks (sb ?s') = used_blocks (sb s) + 1" by (simp add: e)
      have ad': "all_dirty ?ps'" using ad by (rule all_dirty_append) simp
      have nc': "no_clean_page ?s'" using nc p' ad' by (rule no_clean_page_update)
      from charged_pages_update [OF _ _ p', of "i_pages ino"] pn
      have "charged_pages ?s' + dirty_pages (i_pages ino) = charged_pages s + dirty_pages ?ps'"
        by simp
      then have "charged_pages ?s' = charged_pages s + 1"
        by (simp add: dirty_pages_all [OF ad] dirty_pages_all [OF ad'])
      with le u sint_inc [OF adm] have "ledger_exact ?s'" by (simp add: ledger_exact_def)
      with nc' show ?thesis by simp
    qed
  qed
qed

text \<open>
  Where no inode holds a clean page and the used-block count is the number of dirty
  pages, both stay so over every sequence of writes (inside their pages) and unlinks:
  every page in a mapping is then a charged one, and \<open>nrpages\<close> is the number charged.
\<close>

lemma ledger_invariant:
  assumes "no_clean_page s" and "ledger_exact s" and "list_all inside_page ops"
  shows "no_clean_page (run s ops) \<and> ledger_exact (run s ops)"
  using assms
proof (induction ops arbitrary: s)
  case Nil
  then show ?case by simp
next
  case (Cons x xs)
  have "no_clean_page (step s x) \<and> ledger_exact (step s x)"
  proof (cases x)
    case (Write host pos len src alloc)
    with Cons.prems show ?thesis by (simp add: write_keeps_ledger)
  next
    case (Unlink dir dentry ctx)
    with Cons.prems show ?thesis by (simp add: unlink_keeps_ledger)
  qed
  with Cons.IH [of "step s x"] Cons.prems(3) show ?case by simp
qed

lemma ex_sparse_simps [simp]:
  "inode_at ex_sparse 0 = Some ex_dir" "inode_at ex_sparse (Suc 0) = Some ex_sparse_file"
  "sb ex_sparse = ex_sb"
  "pages_of ex_sparse = [Some [], Some [(1, ex_page), (0, ex_hole_page)]]"
  by (simp_all add: ex_sparse_def inode_at_def pages_of_def ex_dir_def ex_sparse_file_def
      new_inode_def)

lemma ledger_invariant_example:
  "ledger_exact (run ex_state
     [Write 1 4096 100 (replicate 60 1) (Some (\<lambda>_. 0xAA)), Unlink 0 ex_dentry ex_ctx,
      Write 1 0 4096 (replicate 4096 2) (Some (\<lambda>_. 0xAA))])"
proof -
  have nc: "no_clean_page ex_state"
    by (simp add: no_clean_page_def ex_pages_of pages_dirty_def all_dirty_def ex_page_def)
  have le: "ledger_exact ex_state"
    by (simp add: ledger_exact_def charged_pages_def ex_pages_of dirty_pages_def ex_page_def)
  have ip: "list_all inside_page
     [Write 1 4096 100 (replicate 60 1) (Some (\<lambda>_. 0xAA)), Unlink 0 ex_dentry ex_ctx,
      Write 1 0 4096 (replicate 4096 2) (Some (\<lambda>_. 0xAA))]"
    by (simp add: page_offset_def PAGE_CACHE_SIZE_def)
  from ledger_invariant [OF nc le ip] show ?thesis by simp
qed

text \<open>
  C2. The refund at link count zero is \<open>nrpages\<close>, the number of all pages of the
  mapping, clean ones included. The sparse file has one dirty page, charged once, and one
  clean page: unlinking it subtracts 2 from a used-block count of 1 and leaves \<open>- 1\<close>,
  while no dirty page is left.
\<close>

theorem unlink_refunds_clean_page:
  "charged_pages ex_sparse = 1 \<and> sint (used_blocks (sb ex_sparse)) = 1 \<and>
   sint (used_blocks (sb (snd (snd (myfs_unlink ex_sparse 0 ex_dentry ex_ctx))))) = - 1 \<and>
   charged_pages (snd (snd (myfs_unlink ex_sparse 0 ex_dentry ex_ctx))) = 0"
proof -
  have d: "d_inode ex_dentry = Some (Suc 0)" by (simp add: ex_dentry_def)
  have n: "i_nlink ex_sparse_file = 1" "i_pages ex_sparse_file = [(1, ex_page), (0, ex_hole_page)]"
    by (simp_all add: ex_sparse_file_def new_inode_def)
  from unlink_steps [OF d ex_sparse_simps(2) ex_sparse_simps(1), of ex_ctx]
  obtain ino4 s4 where
    st: "i_nlink ino4 = i_nlink ex_sparse_file - 1" "i_pages ino4 = i_pages ex_sparse_file"
      "sb s4 = sb ex_sparse" "pages_of s4 = pages_of ex_sparse"
      "myfs_unlink ex_sparse 0 ex_dentry ex_ctx =
         (Inr 0, dput ex_dentry, if i_nlink ino4 = 0 then final_delete (Suc 0) ino4 s4 else s4)"
    by blast
  have z: "i_nlink ino4 = 0" by (simp add: st(1) n)
  have c0: "charged_pages ex_sparse = 1"
    by (simp add: charged_pages_def dirty_pages_def ex_page_def ex_hole_page_def)
  have c1: "charged_pages (final_delete (Suc 0) ino4 s4) = 0"
    by (simp add: charged_pages_def pages_of_final_delete st(4) dirty_pages_def)
  have u: "used_blocks (sb (final_delete (Suc 0) ino4 s4)) = - 1"
    by (simp add: used_final_delete st(2,3) n)
  show ?thesis
    by (simp add: st(5) z c0 c1 u)
qed

section \<open>Inode creation\<close>

text \<open>
  C10. When \<^verbatim>\<open>new_inode\<close> returns null, \<^verbatim>\<open>myfs_get_inode\<close> changes nothing but the record
  of hook calls, to which it adds one call of the on-create hook with a null inode, and
  it returns null.
\<close>

theorem get_inode_alloc_failure:
  "myfs_get_inode s dir mode dev False ctx =
     (None, s\<lparr>hook_calls := hook_calls s @ [create_inode None]\<rparr>)"
  by (simp add: myfs_get_inode_def)

lemma i_nlink_init_owner [simp]: "i_nlink (inode_init_owner ino dir mode ctx) = i_nlink ino"
  by (simp add: inode_init_owner_def Let_def split: option.splits)

lemma inode_at_append_new:
  "inode_at (s\<lparr>inodes := inodes s @ [Some ino], last_ino := l\<rparr>) (length (inodes s)) = Some ino"
  by (simp add: inode_at_def)

lemma set_inode_append_new:
  "set_inode (length (inodes s)) ino' (s\<lparr>inodes := inodes s @ [Some ino], last_ino := l\<rparr>)
     = s\<lparr>inodes := inodes s @ [Some ino'], last_ino := l\<rparr>"
  by (simp add: set_inode_def)

lemma inc_nlink_new:
  assumes "i_nlink ino = 1"
  shows "inc_nlink (length (inodes s)) (s\<lparr>inodes := inodes s @ [Some ino], last_ino := l\<rparr>)
           = s\<lparr>inodes := inodes s @ [Some (ino\<lparr>i_nlink := 2\<rparr>)], last_ino := l\<rparr>"
  using assms by (simp add: inc_nlink_def inode_at_append_new set_inode_append_new)

lemma get_inode_ok:
  "myfs_get_inode s dir mode dev True ctx =
     (Some (length (inodes s)),
      s\<lparr>inodes := inodes s @ [Some (built_inode s dir mode dev ctx)],
        last_ino := last_ino s + 1,
        hook_calls := hook_calls s @ [create_inode (Some (length (inodes s)))]\<rparr>)"
proof -
  define ino2 where "ino2 = (inode_init_owner (new_inode\<lparr>i_ino := ucast (last_ino s + 1)\<rparr>) dir mode ctx)
                   \<lparr>a_ops := myfs_aops, gfp_mask := GFP_HIGHUSER, unevictable := True,
                    i_atime := CURRENT_TIME ctx, i_mtime := CURRENT_TIME ctx,
                    i_ctime := CURRENT_TIME ctx\<rparr>"
  have n: "i_nlink (ino2\<lparr>i_op := myfs_dir_inode_operations, i_fop := simple_dir_operations\<rparr>) = 1"
    by (simp add: ino2_def new_inode_def)
  have b: "built_inode s dir mode dev ctx =
      (let fmt = mode AND S_IFMT
      in if fmt = S_IFREG then
           ino2\<lparr>i_op := myfs_file_inode_operations, i_fop := myfs_file_operations\<rparr>
         else if fmt = S_IFDIR then
           ino2\<lparr>i_op := myfs_dir_inode_operations, i_fop := simple_dir_operations,
                i_nlink := 2\<rparr>
         else if fmt = S_IFLNK then ino2\<lparr>i_op := page_symlink_inode_operations\<rparr>
         else init_special_inode ino2 mode dev)"
    by (simp add: built_inode_def ino2_def Let_def)
  have g: "myfs_get_inode s dir mode dev True ctx =
     (case
           (let p = length (inodes s);
               s1 = s\<lparr>inodes := inodes s @ [Some ino2], last_ino := last_ino s + 1\<rparr>;
               fmt = mode AND S_IFMT;
               s2 = (if fmt = S_IFREG then
                       set_inode p (ino2\<lparr>i_op := myfs_file_inode_operations,
                                          i_fop := myfs_file_operations\<rparr>) s1
                     else if fmt = S_IFDIR then
                       inc_nlink p
                         (set_inode p (ino2\<lparr>i_op := myfs_dir_inode_operations,
                                             i_fop := simple_dir_operations\<rparr>) s1)
                     else if fmt = S_IFLNK then
                       set_inode p (ino2\<lparr>i_op := page_symlink_inode_operations\<rparr>) s1
                     else set_inode p (init_special_inode ino2 mode dev) s1)
           in (Some p, s2)) of
        (inode, s') \<Rightarrow> (inode, s'\<lparr>hook_calls := hook_calls s' @ [create_inode inode]\<rparr>))"
    by (simp add: myfs_get_inode_def ino2_def Let_def)
  show ?thesis
    unfolding g b
    by (simp add: Let_def set_inode_append_new inc_nlink_new [OF n])
qed

lemma on_create_calls_append [simp]:
  "on_create_calls (xs @ ys) = on_create_calls xs @ on_create_calls ys"
  by (induction xs rule: on_create_calls.induct) simp_all

lemma init_owner_fields:
  "i_ino (inode_init_owner ino (Some d) mode ctx) = i_ino ino"
  "i_uid (inode_init_owner ino (Some d) mode ctx) = current_fsuid ctx"
  "i_gid (inode_init_owner ino (Some d) mode ctx) =
     (if i_mode d AND S_ISGID \<noteq> 0 then i_gid d else current_fsgid ctx)"
  "i_mode (inode_init_owner ino (Some d) mode ctx) =
     (if i_mode d AND S_ISGID \<noteq> 0 \<and> mode AND S_IFMT = S_IFDIR then mode OR S_ISGID
      else mode)"
  "i_nlink (inode_init_owner ino (Some d) mode ctx) = i_nlink ino"
  "i_rdev (inode_init_owner ino (Some d) mode ctx) = i_rdev ino"
  "i_op (inode_init_owner ino (Some d) mode ctx) = i_op ino"
  "i_fop (inode_init_owner ino (Some d) mode ctx) = i_fop ino"
  "i_size (inode_init_owner ino (Some d) mode ctx) = i_size ino"
  by (simp_all add: inode_init_owner_def Let_def)

lemma file_types_differ:
  "S_IFREG \<noteq> S_IFDIR" "S_IFREG \<noteq> S_IFLNK" "S_IFREG \<noteq> S_IFCHR" "S_IFREG \<noteq> S_IFBLK"
  "S_IFREG \<noteq> S_IFIFO" "S_IFREG \<noteq> S_IFSOCK"
  "S_IFDIR \<noteq> S_IFLNK" "S_IFDIR \<noteq> S_IFCHR" "S_IFDIR \<noteq> S_IFBLK" "S_IFDIR \<noteq> S_IFIFO"
  "S_IFDIR \<noteq> S_IFSOCK"
  "S_IFLNK \<noteq> S_IFCHR" "S_IFLNK \<noteq> S_IFBLK" "S_IFLNK \<noteq> S_IFIFO" "S_IFLNK \<noteq> S_IFSOCK"
  "S_IFCHR \<noteq> S_IFBLK" "S_IFCHR \<noteq> S_IFIFO" "S_IFCHR \<noteq> S_IFSOCK"
  "S_IFBLK \<noteq> S_IFIFO" "S_IFBLK \<noteq> S_IFSOCK" "S_IFIFO \<noteq> S_IFSOCK"
  by (simp_all add: S_IFREG_def S_IFDIR_def S_IFLNK_def S_IFCHR_def S_IFBLK_def S_IFIFO_def
      S_IFSOCK_def)

lemma initialized_built:
  "initialized s ctx d mode dev (built_inode s (Some d) mode dev ctx)"
proof -
  define ino2 where "ino2 = (inode_init_owner (new_inode\<lparr>i_ino := ucast (last_ino s + 1)\<rparr>)
                     (Some d) mode ctx)
                   \<lparr>a_ops := myfs_aops, gfp_mask := GFP_HIGHUSER, unevictable := True,
                    i_atime := CURRENT_TIME ctx, i_mtime := CURRENT_TIME ctx,
                    i_ctime := CURRENT_TIME ctx\<rparr>"
  have f: "i_ino ino2 = ucast (last_ino s + 1)" "i_uid ino2 = current_fsuid ctx"
    "i_gid ino2 = (if i_mode d AND S_ISGID \<noteq> 0 then i_gid d else current_fsgid ctx)"
    "i_mode ino2 =
       (if i_mode d AND S_ISGID \<noteq> 0 \<and> mode AND S_IFMT = S_IFDIR then mode OR S_ISGID
        else mode)"
    "i_nlink ino2 = 1" "i_rdev ino2 = 0" "i_op ino2 = empty_iops" "i_fop ino2 = empty_fops"
    "i_atime ino2 = CURRENT_TIME ctx" "i_mtime ino2 = CURRENT_TIME ctx"
    "i_ctime ino2 = CURRENT_TIME ctx" "a_ops ino2 = myfs_aops" "gfp_mask ino2 = GFP_HIGHUSER"
    "unevictable ino2"
    by (simp_all add: ino2_def init_owner_fields new_inode_def)
  have b: "built_inode s (Some d) mode dev ctx =
     (if mode AND S_IFMT = S_IFREG then
           ino2\<lparr>i_op := myfs_file_inode_operations, i_fop := myfs_file_operations\<rparr>
         else if mode AND S_IFMT = S_IFDIR then
           ino2\<lparr>i_op := myfs_dir_inode_operations, i_fop := simple_dir_operations,
                i_nlink := 2\<rparr>
         else if mode AND S_IFMT = S_IFLNK then ino2\<lparr>i_op := page_symlink_inode_operations\<rparr>
         else init_special_inode ino2 mode dev)"
    by (simp add: built_inode_def ino2_def Let_def)
  consider "mode AND S_IFMT = S_IFREG" | "mode AND S_IFMT = S_IFDIR" | "mode AND S_IFMT = S_IFLNK"
    | "mode AND S_IFMT \<noteq> S_IFREG" "mode AND S_IFMT \<noteq> S_IFDIR" "mode AND S_IFMT \<noteq> S_IFLNK"
    by blast
  then show ?thesis
  proof cases
    case 1
    then show ?thesis
      unfolding b using f
      by (simp add: initialized_def file_types_differ file_types_differ [symmetric])
  next
    case 2
    then show ?thesis
      unfolding b using f
      by (simp add: initialized_def file_types_differ file_types_differ [symmetric])
  next
    case 3
    then show ?thesis
      unfolding b using f
      by (simp add: initialized_def file_types_differ file_types_differ [symmetric])
  next
    case 4
    then show ?thesis
      unfolding b using f
      by (simp add: initialized_def init_special_inode_def Let_def file_types_differ
          file_types_differ [symmetric])
  qed
qed

lemma with_new_inode_simps [simp]:
  "inode_at (with_new_inode s ino) (length (inodes s)) = Some ino"
  "sb (with_new_inode s ino) = sb s"
  "hook_calls (with_new_inode s ino) = hook_calls s @ [create_inode (Some (length (inodes s)))]"
  "length (inodes (with_new_inode s ino)) = Suc (length (inodes s))"
  by (simp_all add: with_new_inode_def inode_at_def)

lemma inode_at_with_new_inode_old:
  "q < length (inodes s) \<Longrightarrow> inode_at (with_new_inode s ino) q = inode_at s q"
  by (simp add: with_new_inode_def inode_at_def nth_append)

lemma get_inode_ok':
  "myfs_get_inode s dir mode dev True ctx =
     (Some (length (inodes s)), with_new_inode s (built_inode s dir mode dev ctx))"
  by (simp add: get_inode_ok with_new_inode_def)

lemma mknod_ok:
  assumes "inode_at s dir = Some d"
  shows "myfs_mknod s dir dentry mode dev True ctx =
           (Inr 0, dget (d_instantiate dentry (length (inodes s))),
            upd_inode dir (\<lambda>d. d\<lparr>i_mtime := CURRENT_TIME ctx, i_ctime := CURRENT_TIME ctx\<rparr>)
              (with_new_inode s (built_inode s (Some d) mode dev ctx)))"
  using assms by (simp add: myfs_mknod_def get_inode_ok')

lemma mknod_fail:
  assumes "inode_at s dir = Some d"
  shows "myfs_mknod s dir dentry mode dev False ctx =
           (Inl ENOSPC, dentry, s\<lparr>hook_calls := hook_calls s @ [create_inode None]\<rparr>)"
  using assms by (simp add: myfs_mknod_def get_inode_null)

lemma inode_at_inc_nlink_other:
  "q \<noteq> p \<Longrightarrow> inode_at (inc_nlink p s) q = inode_at s q"
  by (simp add: inc_nlink_def inode_at_set_inode inode_at_def WARN_ON_def Let_def
      split: option.splits)

lemma hook_calls_inc_nlink [simp]: "hook_calls (inc_nlink p s) = hook_calls s"
  by (simp add: inc_nlink_def WARN_ON_def Let_def split: option.splits)

lemma d_inode_dget_inst [simp]: "d_inode (dget (d_instantiate dentry p)) = Some p"
  by (simp add: dget_def d_instantiate_def)

lemma mknod_outcome:
  assumes ia: "inode_at s dir = Some d"
  shows "case myfs_mknod s dir dentry mode dev alloc_ok ctx of
           (r, dentry', s') \<Rightarrow>
             hook_calls s' =
               hook_calls s @ [create_inode (if alloc_ok then Some (length (inodes s)) else None)] \<and>
             (if alloc_ok then
                r = Inr 0 \<and> d_inode dentry' = Some (length (inodes s)) \<and>
                inode_at s' (length (inodes s)) = Some (built_inode s (Some d) mode dev ctx)
              else r = Inl ENOSPC \<and> dentry' = dentry)"
proof (cases alloc_ok)
  case True
  have ne: "length (inodes s) \<noteq> dir"
    using inode_at_Some_less [OF ia] by simp
  show ?thesis
    using True ne by (simp add: mknod_ok [OF ia] inode_at_upd_inode)
next
  case False
  then show ?thesis by (simp add: mknod_fail [OF ia])
qed

lemma page_offset_0 [simp]: "page_offset 0 = 0"
  by (simp add: page_offset_def)

lemma page_index_0 [simp]: "page_index 0 = 0"
  by (simp add: page_index_def)

lemma unat_of_nat_symname:
  assumes "length symname < PAGE_CACHE_SIZE"
  shows "unat (of_nat (length symname) :: u32) = length symname"
  using assms by (simp add: unat_of_nat PAGE_CACHE_SIZE_def)

lemma page_symlink_write:
  assumes "length symname < PAGE_CACHE_SIZE"
  shows "page_symlink s p symname (of_nat (length symname) + 1) alloc =
           (case myfs_write s p 0 (of_nat (length symname)) symname alloc of
              (Inl e, s') \<Rightarrow> (Some e, s')
            | (Inr n, s') \<Rightarrow> (None, s'))"
  by (simp add: page_symlink_def myfs_write_def unat_of_nat_symname [OF assms]
      split: prod.splits sum.splits)

lemma write_fresh_outcome:
  assumes ia: "inode_at s host = Some ino"
    and bs: "s_blocksize (sb s) \<noteq> 0"
    and fit: "unat (page_offset pos) + unat len \<le> PAGE_CACHE_SIZE"
    and np: "i_pages ino = []"
  shows "myfs_write s host pos len src alloc =
           (if sint (fs_max_size (sb s) div s_blocksize (sb s)) \<le> sint (used_blocks (sb s))
               \<or> alloc = None
            then (Inl ENOMEM, s)
            else (Inr (of_nat (length src)),
                  (set_inode host
                     (ino\<lparr>i_size := new_size ino pos (of_nat (length src)),
                          i_pages := [(page_index pos,
                                       written_page pos len src (fresh_page (the alloc)))]\<rparr>) s)
                  \<lparr>sb := atomic_long_inc_used (sb s)\<rparr>))"
proof (cases "sint (fs_max_size (sb s) div s_blocksize (sb s)) \<le> sint (used_blocks (sb s))")
  case True
  then show ?thesis
    by (simp add: myfs_write_def write_begin_full [OF ia bs])
next
  case False
  then have adm: "sint (used_blocks (sb s)) < sint (fs_max_size (sb s) div s_blocksize (sb s))"
    by simp
  show ?thesis
    using False np by (cases alloc) (simp_all add: write_steps [OF ia bs adm fit])
qed

lemma iput_new:
  "iput p s = s\<lparr>hook_calls := hook_calls s @ [delete_inode (Some p)],
               inodes := (inodes s)[p := None]\<rparr>"
  by (simp add: iput_def myfs_delete_inode_def)

lemma i_pages_built [simp]: "i_pages (built_inode s dir mode dev ctx) = []"
  by (simp add: built_inode_def Let_def init_special_inode_def inode_init_owner_def new_inode_def
      split: option.splits)

lemma symlink_ok:
  assumes ia: "inode_at s dir = Some d"
    and bs: "s_blocksize (sb s) \<noteq> 0"
    and fit: "length symname < PAGE_CACHE_SIZE"
  shows "myfs_symlink s dir dentry symname True alloc ctx =
           (let p = length (inodes s);
                ino = built_inode s (Some d) (S_IFLNK OR S_IRWXUGO) 0 ctx;
                s1 = with_new_inode s ino
            in if sint (fs_max_size (sb s) div s_blocksize (sb s)) \<le> sint (used_blocks (sb s))
                  \<or> alloc = None
               then (Inl ENOMEM, dentry, iput p s1)
               else (Inr 0, dget (d_instantiate dentry p),
                     upd_inode dir
                       (\<lambda>d. d\<lparr>i_mtime := CURRENT_TIME ctx, i_ctime := CURRENT_TIME ctx\<rparr>)
                       ((set_inode p
                           (ino\<lparr>i_size := new_size ino 0 (of_nat (length symname)),
                                i_pages := [(0, written_page 0 (of_nat (length symname)) symname
                                                  (fresh_page (the alloc)))]\<rparr>) s1)
                        \<lparr>sb := atomic_long_inc_used (sb s)\<rparr>)))"
proof -
  let ?p = "length (inodes s)"
  let ?ino = "built_inode s (Some d) (S_IFLNK OR S_IRWXUGO) 0 ctx"
  let ?s1 = "with_new_inode s ?ino"
  have ia1: "inode_at ?s1 ?p = Some ?ino" by simp
  have bs1: "s_blocksize (sb ?s1) \<noteq> 0" using bs by simp
  have f: "unat (page_offset 0) + unat (of_nat (length symname) :: u32) \<le> PAGE_CACHE_SIZE"
    using fit by (simp add: unat_of_nat_symname)
  have np: "i_pages ?ino = []" by simp
  note w = write_fresh_outcome [OF ia1 bs1 f np, of symname alloc]
  show ?thesis
    using ia
    by (simp add: myfs_symlink_def get_inode_ok' page_symlink_write [OF fit] w Let_def)
qed

lemma i_size_built [simp]: "i_size (built_inode s dir mode dev ctx) = 0"
  by (simp add: built_inode_def Let_def init_special_inode_def inode_init_owner_def new_inode_def
      split: option.splits)

lemma initialized_size_pages [simp]:
  "initialized s ctx d mode dev (ino\<lparr>i_size := sz, i_pages := ps\<rparr>) =
     initialized s ctx d mode dev ino"
  by (simp add: initialized_def)

lemma symlink_size:
  assumes fit: "length symname < PAGE_CACHE_SIZE"
    and z: "i_size ino = 0"
  shows "new_size ino 0 (of_nat (length symname)) = of_nat (length symname)"
proof -
  have t: "take_bit 32 (length symname) = length symname"
    using fit by (simp add: take_bit_nat_eq_self PAGE_CACHE_SIZE_def)
  have u: "ucast (of_nat (length symname) :: u32) = (of_nat (length symname) :: u64)"
    by (simp add: unsigned_of_nat t)
  show ?thesis
  proof (cases "length symname = 0")
    case True
    then show ?thesis by (simp add: new_size_def z)
  next
    case False
    have "sint (of_nat (length symname) :: u64) = int (length symname)"
      using fit by (simp add: signed_of_nat signed_take_bit_int_eq_self PAGE_CACHE_SIZE_def)
    then show ?thesis
      using False by (simp add: new_size_def z u)
  qed
qed

lemma symlink_page:
  assumes fit: "length symname < PAGE_CACHE_SIZE"
  shows "written_page 0 (of_nat (length symname)) symname (fresh_page g) =
           \<lparr>data = symname @ replicate (PAGE_CACHE_SIZE - length symname) 0,
            PageUptodate = True, PageDirty = True\<rparr>"
proof (rule page.equality)
  have f: "unat (page_offset 0) + unat (of_nat (length symname) :: u32) \<le> PAGE_CACHE_SIZE"
    using fit by (simp add: unat_of_nat_symname)
  have ls: "length symname \<le> unat (of_nat (length symname) :: u32)"
    by (simp add: unat_of_nat_symname [OF fit])
  show "data (written_page 0 (of_nat (length symname)) symname (fresh_page g)) =
        data \<lparr>data = symname @ replicate (PAGE_CACHE_SIZE - length symname) 0,
              PageUptodate = True, PageDirty = True\<rparr>"
    by (simp add: written_bytes [OF fresh_page_simps(2) f ls])
qed (simp_all add: written_page_def end_page_def)

lemma mknod_request:
  assumes ia: "inode_at s dir = Some d"
  shows "case myfs_mknod s dir dentry mode dev alloc_ok ctx of
           (r, dentry', s') \<Rightarrow>
             on_create_calls (hook_calls s') =
               on_create_calls (hook_calls s) @
                 [if alloc_ok then Some (length (inodes s)) else None] \<and>
             (r = Inr 0 \<and> alloc_ok \<and> d_inode dentry' = Some (length (inodes s)) \<and>
                (\<exists>ino. inode_at s' (length (inodes s)) = Some ino \<and>
                       initialized s ctx d mode dev ino \<and> i_size ino = 0 \<and> i_pages ino = [])
              \<or> r = Inl ENOSPC \<and> \<not> alloc_ok \<and> dentry' = dentry)"
  using mknod_outcome [OF ia, where dentry = dentry and mode = mode and dev = dev and alloc_ok = alloc_ok and ctx = ctx]
  by (auto simp: initialized_built split: prod.splits if_splits)

lemma mkdir_request:
  assumes ia: "inode_at s dir = Some d"
  shows "case myfs_mkdir s dir dentry mode alloc_ok ctx of
           (r, dentry', s') \<Rightarrow>
             on_create_calls (hook_calls s') =
               on_create_calls (hook_calls s) @
                 [if alloc_ok then Some (length (inodes s)) else None] \<and>
             (r = Inr 0 \<and> alloc_ok \<and> d_inode dentry' = Some (length (inodes s)) \<and>
                (\<exists>ino. inode_at s' (length (inodes s)) = Some ino \<and>
                       initialized s ctx d (mode OR S_IFDIR) 0 ino \<and>
                       i_size ino = 0 \<and> i_pages ino = [])
              \<or> r = Inl ENOSPC \<and> \<not> alloc_ok \<and> dentry' = dentry)"
proof -
  have ne: "length (inodes s) \<noteq> dir"
    using inode_at_Some_less [OF ia] by simp
  show ?thesis
    using mknod_request [OF ia, where dentry = dentry and mode = "mode OR S_IFDIR" and dev = 0 and alloc_ok = alloc_ok and ctx = ctx] ne
    by (auto simp: myfs_mkdir_def inode_at_inc_nlink_other split: prod.splits sum.splits)
qed

lemma symlink_request:
  assumes ia: "inode_at s dir = Some d"
    and bs: "s_blocksize (sb s) \<noteq> 0"
    and fit: "length symname < PAGE_CACHE_SIZE"
  shows "case myfs_symlink s dir dentry symname alloc_ok alloc ctx of
           (r, dentry', s') \<Rightarrow>
             on_create_calls (hook_calls s') =
               on_create_calls (hook_calls s) @
                 [if alloc_ok then Some (length (inodes s)) else None] \<and>
             (r = Inr 0 \<and> alloc_ok \<and> d_inode dentry' = Some (length (inodes s)) \<and>
                (\<exists>ino. inode_at s' (length (inodes s)) = Some ino \<and>
                       initialized s ctx d (S_IFLNK OR S_IRWXUGO) 0 ino \<and>
                       i_size ino = of_nat (length symname) \<and>
                       i_pages ino =
                         [(0, \<lparr>data = symname @ replicate (PAGE_CACHE_SIZE - length symname) 0,
                               PageUptodate = True, PageDirty = True\<rparr>)])
              \<or> r = Inl ENOSPC \<and> \<not> alloc_ok \<and> dentry' = dentry
              \<or> r = Inl ENOMEM \<and> alloc_ok \<and> dentry' = dentry \<and>
                (sint (fs_max_size (sb s) div s_blocksize (sb s)) \<le> sint (used_blocks (sb s))
                 \<or> alloc = None) \<and>
                inode_at s' (length (inodes s)) = None)"
proof (cases alloc_ok)
  case False
  then show ?thesis
    using ia by (simp add: myfs_symlink_def get_inode_null)
next
  case True
  have ne: "length (inodes s) \<noteq> dir"
    using inode_at_Some_less [OF ia] by simp
  show ?thesis
  proof (cases "sint (fs_max_size (sb s) div s_blocksize (sb s)) \<le> sint (used_blocks (sb s))
                  \<or> alloc = None")
    case full: True
    have "inode_at (iput (length (inodes s)) (with_new_inode s ino)) (length (inodes s)) = None"
      for ino
      by (simp add: iput_new inode_at_def with_new_inode_def)
    then show ?thesis
      using True full
      by (simp add: symlink_ok [OF ia bs fit] Let_def iput_new)
  next
    case ok: False
    then obtain g where g: "alloc = Some g" by auto
    show ?thesis
      using True ok ne g
      by (simp add: symlink_ok [OF ia bs fit] Let_def inode_at_upd_inode inode_at_set_inode
          initialized_built symlink_size [OF fit] symlink_page [OF fit])
  qed
qed


lemma ex_full_simps [simp]:
  "inode_at ex_full 0 = Some ex_dir" "length (inodes ex_full) = 2"
  "s_blocksize (sb ex_full) = 4096" "fs_max_size (sb ex_full) = 16384"
  "used_blocks (sb ex_full) = 4"
  by (simp_all add: ex_full_def ex_sb_def)



end
